theory Spec2Isabelle
  imports Complex_Main
begin

section \<open>Python and NumPy values used by the notebook\<close>

text \<open>
  The object-detection cell of the notebook (class \<open>ObjectDetection\<close> and the driver cell
  after it) is embedded here. Exceptions are values; the ones the cell can raise are listed.
\<close>

datatype error = AssertionError | IndexError | ZeroDivisionError | OverflowError | ValueError

text \<open>
  A Python \<open>str\<close> that may hold characters outside ASCII (the file paths of the driver
  cell) is the list of its Unicode code points. Text that the cell builds itself (labels,
  log lines) is plain ASCII and is a \<open>string\<close>.
\<close>

type_synonym ustr = "nat list"

definition ascii :: "string \<Rightarrow> ustr" where
  "ascii s = map of_char s"

text \<open>Decimal rendering of an integer, as an f-string renders \<open>{n}\<close> for an \<open>int\<close>.\<close>

definition digit_char :: "nat \<Rightarrow> char" where
  "digit_char d = ''0123456789'' ! d"

fun digits :: "nat \<Rightarrow> string" where
  "digits n = (if n < 10 then [digit_char n] else digits (n div 10) @ [digit_char (n mod 10)])"

declare digits.simps [simp del]

definition str_int :: "int \<Rightarrow> string" where
  "str_int i = (if i < 0 then CHR ''-'' # digits (nat (- i)) else digits (nat i))"

text \<open>
  A float (Python \<open>float\<close>, \<open>numpy.float64\<close>, \<open>numpy.float32\<close>) is either a finite value,
  taken as the exact rational it denotes, or one of the special values of IEEE 754.
  Rounding of finite results to the nearest representable float is not modelled: finite
  arithmetic is exact.
\<close>

datatype npfloat = Fin rat | NegZero | PInf | NInf | NaN

text \<open>\<open>int(x)\<close> for a finite float: truncation towards zero.\<close>

definition trunc :: "rat \<Rightarrow> int" where
  "trunc r = (if 0 \<le> r then \<lfloor>r\<rfloor> else \<lceil>r\<rceil>)"

text \<open>
  \<open>int(x)\<close> for a float: \<open>OverflowError\<close> on an infinity, \<open>ValueError\<close> on a NaN.
\<close>

fun py_int :: "npfloat \<Rightarrow> error + int" where
  "py_int (Fin r) = Inr (trunc r)"
| "py_int NegZero = Inr 0"
| "py_int PInf = Inl OverflowError"
| "py_int NInf = Inl OverflowError"
| "py_int NaN = Inl ValueError"

text \<open>Round half to even, the rounding of \<open>numpy.rint\<close>.\<close>

definition rint :: "rat \<Rightarrow> int" where
  "rint x =
     (let f = \<lfloor>x\<rfloor>; d = x - of_int f
      in if d < 1 / 2 then f
         else if 1 / 2 < d then f + 1
         else if even f then f else f + 1)"

text \<open>
  \<open>numpy.round(x, decimals)\<close> on a Python float: scale by \<open>10 ** decimals\<close>, round half to
  even, scale back. The result is a \<open>numpy.float64\<close>; a negative \<open>x\<close> that rounds to zero
  gives \<open>-0.0\<close>. The scaled value is taken exactly here, where NumPy rounds it to a
  double before \<open>rint\<close>: an \<open>x\<close> within one rounding error of a half-way point (the double
  nearest 0.0005 for three decimals, which NumPy rounds to 0.0) can round the other way
  in the code. The properties below keep clear of the half-way points: they speak of
  elapsed times under 1/2000 and of elapsed times of at least 1/1000, where the exact and
  the rounded scaled value round alike.
\<close>

definition np_round :: "rat \<Rightarrow> nat \<Rightarrow> npfloat" where
  "np_round x decimals =
     (let k = rint (x * 10 ^ decimals)
      in if k = 0 \<and> x < 0 then NegZero else Fin (of_int k / 10 ^ decimals))"

text \<open>
  \<open>1 / y\<close> for a \<open>numpy.float64\<close> \<open>y\<close>: NumPy scalar division. Division by a zero does not
  raise; it gives an infinity of the zero's sign (and a \<open>RuntimeWarning\<close> on stderr).
\<close>

fun np_recip :: "npfloat \<Rightarrow> npfloat" where
  "np_recip (Fin r) = (if r = 0 then PInf else Fin (1 / r))"
| "np_recip NegZero = NInf"
| "np_recip PInf = Fin 0"
| "np_recip NInf = NegZero"
| "np_recip NaN = NaN"

text \<open>Float addition.\<close>

fun np_add :: "npfloat \<Rightarrow> npfloat \<Rightarrow> npfloat" where
  "np_add NaN y = NaN"
| "np_add x NaN = NaN"
| "np_add PInf NInf = NaN"
| "np_add NInf PInf = NaN"
| "np_add PInf y = PInf"
| "np_add x PInf = PInf"
| "np_add NInf y = NInf"
| "np_add x NInf = NInf"
| "np_add NegZero y = y"
| "np_add x NegZero = x"
| "np_add (Fin a) (Fin b) = Fin (a + b)"

text \<open>\<open>x / n\<close> for a float \<open>x\<close> and a positive Python \<open>int\<close> literal \<open>n\<close>.\<close>

fun np_div_pos :: "npfloat \<Rightarrow> nat \<Rightarrow> npfloat" where
  "np_div_pos (Fin r) n = Fin (r / of_nat n)"
| "np_div_pos NegZero n = NegZero"
| "np_div_pos PInf n = PInf"
| "np_div_pos NInf n = NInf"
| "np_div_pos NaN n = NaN"

section \<open>Frames and detections\<close>

text \<open>
  A frame is an image of \<open>rows\<close> by \<open>cols\<close> pixels (\<open>frame.shape[0]\<close>, \<open>frame.shape[1]\<close>).
  The pixel buffer is represented by the OpenCV drawing calls applied to it, in order:
  \<open>cv2.rectangle\<close> with its two corners, colour and thickness, and \<open>cv2.putText\<close> with
  its text, origin, font scale, colour and thickness (the font is the same in every call
  and is left out).
\<close>

datatype draw =
    Rectangle "int \<times> int" "int \<times> int" "nat \<times> nat \<times> nat" nat
  | PutText string "int \<times> int" rat "nat \<times> nat \<times> nat" nat

record frame =
  rows :: nat
  cols :: nat
  drawn :: "draw list"

text \<open>
  The model's answer for one frame, \<open>results.xyxyn[0]\<close>: one row of six numbers per
  detection, \<open>x1, y1, x2, y2, confidence, class\<close>.
\<close>

type_synonym xyxyn = "rat \<times> rat \<times> rat \<times> rat \<times> rat \<times> rat"

type_synonym cordrow = "rat \<times> rat \<times> rat \<times> rat \<times> rat"

text \<open>
  \<open>score_frame\<close>: the last column is the labels, the other columns the coordinates. The
  model itself is a parameter.
\<close>

definition score_frame :: "(frame \<Rightarrow> xyxyn list) \<Rightarrow> frame \<Rightarrow> rat list \<times> cordrow list" where
  "score_frame model frame =
     (let results = model frame
      in (map (\<lambda>(x1, y1, x2, y2, c, l). l) results,
          map (\<lambda>(x1, y1, x2, y2, c, l). (x1, y1, x2, y2, c)) results))"

text \<open>
  The four corner coordinates of line 91 of the cell. The products are taken exactly,
  where the code truncates the product rounded to a \<open>numpy.float32\<close>; the two can differ by
  one pixel. Rounding is monotone and leaves a width or height below \<open>2 ^ 24\<close> unchanged,
  so the bounds shown below for coordinates in [0, 1] hold for the rounded products of such
  frames as well.
\<close>

definition denormalize :: "nat \<Rightarrow> nat \<Rightarrow> cordrow \<Rightarrow> int \<times> int \<times> int \<times> int" where
  "denormalize x_shape y_shape row =
     (case row of (r0, r1, r2, r3, r4) \<Rightarrow>
        (trunc (r0 * of_nat x_shape), trunc (r1 * of_nat y_shape),
         trunc (r2 * of_nat x_shape), trunc (r3 * of_nat y_shape)))"

text \<open>
  The body of the \<open>for i in range(n)\<close> loop of \<open>plot_boxes\<close>: a rectangle, the confidence
  label at its top-left corner, and the "Total Targets" text. All three are drawn inside
  the loop.
\<close>

definition plot_one :: "nat \<Rightarrow> nat \<Rightarrow> nat \<Rightarrow> cordrow \<Rightarrow> frame \<Rightarrow> frame" where
  "plot_one n x_shape y_shape row frame =
     (case denormalize x_shape y_shape row of (x1, y1, x2, y2) \<Rightarrow>
        (let bgr = (0, 0, 255);
             label = str_int (trunc (snd (snd (snd (snd row))) * 100))
         in frame\<lparr>drawn := drawn frame @
              [Rectangle (x1, y1) (x2, y2) bgr 3,
               PutText label (x1, y1) (6 / 10) (0, 255, 0) 1,
               PutText (''Total Targets: '' @ str_int (int n)) (30, 30) 1 (0, 255, 0) 2]\<rparr>))"

fun plot_rows :: "nat \<Rightarrow> nat \<Rightarrow> nat \<Rightarrow> cordrow list \<Rightarrow> nat list \<Rightarrow> frame \<Rightarrow> error + frame" where
  "plot_rows n x_shape y_shape cord [] frame = Inr frame"
| "plot_rows n x_shape y_shape cord (i # rest) frame =
     (if i < length cord
      then plot_rows n x_shape y_shape cord rest (plot_one n x_shape y_shape (cord ! i) frame)
      else Inl IndexError)"

definition plot_boxes :: "rat list \<times> cordrow list \<Rightarrow> frame \<Rightarrow> error + frame" where
  "plot_boxes results frame =
     (case results of (labels, cord) \<Rightarrow>
        (let n = length labels; x_shape = cols frame; y_shape = rows frame
         in plot_rows n x_shape y_shape cord [0..<n] frame))"

section \<open>The annotation loop\<close>

text \<open>
  What \<open>cv2.VideoCapture(path)\<close> gives for a path: whether it is opened, the properties
  the cell reads (after \<open>int(...)\<close>), and the results of the successive \<open>read()\<close> calls.
  \<open>None\<close> in \<open>feed\<close> is a read that returns no frame; a read past the end of \<open>feed\<close>
  returns no frame either.
\<close>

record capture =
  isOpened :: bool
  frame_width :: int
  frame_height :: int
  frame_count :: int
  feed :: "frame option list"

text \<open>
  The local variables of \<open>__call__\<close> and what the loop has done so far: \<open>ticks\<close> counts
  the calls of \<open>time()\<close>, \<open>taken\<close> holds the frames \<open>player.read()\<close> has returned,
  \<open>stdout\<close> the printed lines, \<open>written\<close> the frames passed to \<open>out.write\<close>.
\<close>

record session =
  fc :: int
  fps :: npfloat
  tfcc :: int
  ticks :: nat
  taken :: "frame list"
  stdout :: "string list"
  written :: "frame list"

text \<open>A run either returns or raises; both carry the state reached.\<close>

datatype 'a outcome = Returned 'a | Raised error 'a

fun reached :: "'a outcome \<Rightarrow> 'a" where
  "reached (Returned s) = s"
| "reached (Raised e s) = s"

fun raised :: "'a outcome \<Rightarrow> error option" where
  "raised (Returned s) = None"
| "raised (Raised e s) = Some e"

definition progress_line :: "int \<Rightarrow> int \<Rightarrow> string" where
  "progress_line f per_com =
     ''Frames Per Second : '' @ str_int f @ '' || Percentage Parsed : '' @ str_int per_com"

text \<open>
  Lines 117 to 127 of the cell: one iteration after a successful read. \<open>clock k\<close> is the
  value of the \<open>k\<close>-th call of \<open>time()\<close> (counted from 0); \<open>start_time\<close> was taken before
  the read. \<open>tfcc / tfc\<close> is a division of two Python ints and raises on a zero divisor.
  The model call and the OpenCV calls are taken to return: an exception of theirs is not
  part of this embedding.
\<close>

definition body ::
  "(frame \<Rightarrow> xyxyn list) \<Rightarrow> (nat \<Rightarrow> rat) \<Rightarrow> int \<Rightarrow> frame \<Rightarrow> rat \<Rightarrow> session \<Rightarrow> session outcome"
where
  "body model clock tfc frame0 start_time s =
     (case plot_boxes (score_frame model frame0) frame0 of
        Inl e \<Rightarrow> Raised e s
      | Inr frame1 \<Rightarrow>
          (let end_time = clock (ticks s);
               s1 = s\<lparr>ticks := ticks s + 1\<rparr>;
               s2 = s1\<lparr>fps := np_add (fps s1) (np_recip (np_round (end_time - start_time) 3))\<rparr>
           in if fc s2 = 10
              then (case py_int (np_div_pos (fps s2) 10) of
                      Inl e \<Rightarrow> Raised e s2
                    | Inr f \<Rightarrow>
                        (let s3 = s2\<lparr>fps := Fin (of_int f)\<rparr>;
                             s4 = s3\<lparr>tfcc := tfcc s3 + fc s3\<rparr>;
                             s5 = s4\<lparr>fc := 0\<rparr>
                         in if tfc = 0 then Raised ZeroDivisionError s5
                            else (let per_com = trunc (of_int (tfcc s5) / of_int tfc * 100);
                                      s6 = s5\<lparr>stdout := stdout s5 @ [progress_line f per_com]\<rparr>
                                  in Returned (s6\<lparr>written := written s6 @ [frame1]\<rparr>))))
              else Returned (s2\<lparr>written := written s2 @ [frame1]\<rparr>)))"

text \<open>
  The \<open>while True\<close> loop, by recursion on the reads still to come. Each iteration counts
  the frame and takes the time before it reads; a read without a frame leaves the loop.
\<close>

fun loop ::
  "(frame \<Rightarrow> xyxyn list) \<Rightarrow> (nat \<Rightarrow> rat) \<Rightarrow> int \<Rightarrow> frame option list \<Rightarrow> session \<Rightarrow> session outcome"
where
  "loop model clock tfc [] s = Returned (s\<lparr>fc := fc s + 1, ticks := ticks s + 1\<rparr>)"
| "loop model clock tfc (None # rest) s = Returned (s\<lparr>fc := fc s + 1, ticks := ticks s + 1\<rparr>)"
| "loop model clock tfc (Some frame0 # rest) s =
     (case body model clock tfc frame0 (clock (ticks s))
             (s\<lparr>fc := fc s + 1, ticks := ticks s + 1, taken := taken s @ [frame0]\<rparr>) of
        Raised e s' \<Rightarrow> Raised e s'
      | Returned s' \<Rightarrow> loop model clock tfc rest s')"

section \<open>The detector object, a run, and the driver cell\<close>

text \<open>
  The fields \<open>__init__\<close> sets. The loaded model is a parameter of the run; the thresholds
  and the class filter are what the cell writes into it.
\<close>

record objdet =
  input_file :: ustr
  out_file :: ustr
  conf :: rat
  iou :: rat
  classes :: "nat list"

definition ObjectDetection :: "ustr \<Rightarrow> ustr \<Rightarrow> objdet" where
  "ObjectDetection input out =
     \<lparr>input_file = input, out_file = out, conf = 4 / 10, iou = 3 / 10, classes = [0]\<rparr>"

text \<open>
  What a run leaves behind: the path given to \<open>cv2.VideoCapture\<close>, the \<open>cv2.VideoWriter\<close>
  if one was created (path, codec, rate, size), the frames read from the one and written
  to the other, the printed lines, and which of the two streams had \<open>release()\<close> called
  on it.
\<close>

record effects =
  source :: "ustr option"
  sink :: "(ustr \<times> string \<times> nat \<times> int \<times> int) option"
  frames_in :: "frame list"
  frames_out :: "frame list"
  console :: "string list"
  player_released :: bool
  out_released :: bool

definition nothing_done :: effects where
  "nothing_done =
     \<lparr>source = None, sink = None, frames_in = [], frames_out = [], console = [],
      player_released = False, out_released = False\<rparr>"

definition session0 :: session where
  "session0 =
     \<lparr>fc = 0, fps = Fin 0, tfcc = 0, ticks = 0, taken = [], stdout = [], written = []\<rparr>"

text \<open>
  \<open>__call__\<close>. \<open>videos\<close> is the file system and network as \<open>cv2.VideoCapture\<close> sees it.
  The only \<open>release()\<close> in the method is \<open>player.release()\<close> after the loop; there is no
  \<open>try\<close> or \<open>finally\<close>, so an exception leaves the method before it.
\<close>

definition call ::
  "(ustr \<Rightarrow> capture) \<Rightarrow> (frame \<Rightarrow> xyxyn list) \<Rightarrow> (nat \<Rightarrow> rat) \<Rightarrow> objdet \<Rightarrow> effects outcome"
where
  "call videos model clock self =
     (let player = videos (input_file self);
          e0 = nothing_done\<lparr>source := Some (input_file self)\<rparr>
      in if \<not> isOpened player then Raised AssertionError e0
         else
           (let x_shape = frame_width player;
                y_shape = frame_height player;
                four_cc = ''MJPG'';
                e1 = e0\<lparr>sink := Some (out_file self, four_cc, 20, x_shape, y_shape)\<rparr>;
                tfc = frame_count player
            in case loop model clock tfc (feed player) session0 of
                 Raised e s \<Rightarrow>
                   Raised e (e1\<lparr>frames_in := taken s, frames_out := written s,
                                console := stdout s\<rparr>)
               | Returned s \<Rightarrow>
                   Returned (e1\<lparr>frames_in := taken s, frames_out := written s,
                                console := stdout s, player_released := True\<rparr>)))"

text \<open>The two path literals of the driver cell.\<close>

definition literal_input :: ustr where
  "literal_input =
     ascii ''C:/Users/sunfo/Downloads/'' @ [51060, 49345, 54665, 46041] @ ascii '' CCTV '' @
     [50689, 49345] @ ascii ''/02.'' @ [49912, 50880] @
     ascii ''(fight)/insidedoor_03/37-4/37-4_cam01_fight01_place02_night_spring.mp4''"

definition literal_output :: ustr where
  "literal_output =
     ascii ''C:/Users/sunfo/OneDrive/'' @ [48148, 53461] @ ascii '' '' @ [54868, 47732] @
     ascii ''/detected_37-4_cam01_fight01_place02_night_spring.mp4''"

text \<open>
  The driver cell: \<open>sys.argv[1]\<close> and \<open>sys.argv[2]\<close> are read into \<open>link\<close> and
  \<open>output_file\<close>; the object is built from the two literals.
\<close>

definition driver ::
  "(ustr \<Rightarrow> capture) \<Rightarrow> (frame \<Rightarrow> xyxyn list) \<Rightarrow> (nat \<Rightarrow> rat) \<Rightarrow> ustr list \<Rightarrow> effects outcome"
where
  "driver videos model clock argv =
     (if length argv \<le> 1 then Raised IndexError nothing_done
      else (let link = argv ! 1
            in if length argv \<le> 2 then Raised IndexError nothing_done
               else (let output_file = argv ! 2;
                         a = ObjectDetection literal_input literal_output
                     in call videos model clock a)))"

section \<open>Notions the properties are stated with\<close>

text \<open>A normalized box lies in the unit square; a pixel position lies within a frame.\<close>

definition in_unit_box :: "cordrow \<Rightarrow> bool" where
  "in_unit_box row =
     (case row of (r0, r1, r2, r3, r4) \<Rightarrow>
        0 \<le> r0 \<and> r0 \<le> 1 \<and> 0 \<le> r1 \<and> r1 \<le> 1 \<and> 0 \<le> r2 \<and> r2 \<le> 1 \<and> 0 \<le> r3 \<and> r3 \<le> 1)"

definition inside :: "frame \<Rightarrow> int \<times> int \<Rightarrow> bool" where
  "inside frame p = (0 \<le> fst p \<and> fst p \<le> int (cols frame) \<and> 0 \<le> snd p \<and> snd p \<le> int (rows frame))"

fun box_inside :: "frame \<Rightarrow> draw \<Rightarrow> bool" where
  "box_inside frame (Rectangle p q colour thickness) = (inside frame p \<and> inside frame q)"
| "box_inside frame (PutText s p scale colour thickness) = True"

text \<open>
  The three drawing calls of one pass of the loop of \<open>plot_boxes\<close> (lemma \<open>plot_one_marks\<close>
  below): detection \<open>i\<close> of a frame gets the entries \<open>3 * i\<close>, \<open>3 * i + 1\<close> and
  \<open>3 * i + 2\<close> of what \<open>plot_boxes\<close> adds to the frame.
\<close>

definition box_marks :: "nat \<Rightarrow> nat \<Rightarrow> nat \<Rightarrow> cordrow \<Rightarrow> draw list" where
  "box_marks n x_shape y_shape row =
     drawn (plot_one n x_shape y_shape row \<lparr>rows = y_shape, cols = x_shape, drawn = []\<rparr>)"

text \<open>A written frame is the annotation of a read frame.\<close>

definition annotates :: "(frame \<Rightarrow> xyxyn list) \<Rightarrow> frame \<Rightarrow> frame \<Rightarrow> bool" where
  "annotates model frame0 frame1 = (plot_boxes (score_frame model frame0) frame0 = Inr frame1)"

text \<open>
  The frame \<open>__call__\<close> holds after \<open>score_frame\<close> and \<open>plot_boxes\<close>. On the result of
  \<open>score_frame\<close> the index of \<open>plot_boxes\<close> is always in range (lemma
  \<open>plot_boxes_annotate\<close> below), so the second case never applies.
\<close>

definition annotate :: "(frame \<Rightarrow> xyxyn list) \<Rightarrow> frame \<Rightarrow> frame" where
  "annotate model frame0 =
     (case plot_boxes (score_frame model frame0) frame0 of Inr frame1 \<Rightarrow> frame1 | Inl e \<Rightarrow> frame0)"

text \<open>The frames the reads give before the first read without a frame.\<close>

definition readable :: "frame option list \<Rightarrow> frame list" where
  "readable fd = map the (takeWhile (\<lambda>r. r \<noteq> None) fd)"

text \<open>
  The wall-clock time of the iteration that takes its start time at call \<open>t\<close> of
  \<open>time()\<close>, and the value of the FPS accumulator after \<open>j\<close> such iterations in a row.
\<close>

definition elapsed :: "(nat \<Rightarrow> rat) \<Rightarrow> nat \<Rightarrow> rat" where
  "elapsed clock t = clock (t + 1) - clock t"

fun accumulated :: "(nat \<Rightarrow> rat) \<Rightarrow> nat \<Rightarrow> nat \<Rightarrow> npfloat \<Rightarrow> npfloat" where
  "accumulated clock t 0 a = a"
| "accumulated clock t (Suc j) a =
     accumulated clock (t + 2) j (np_add a (np_recip (np_round (elapsed clock t) 3)))"

section \<open>Example inputs\<close>

definition example_frame :: frame where
  "example_frame = \<lparr>rows = 480, cols = 640, drawn = []\<rparr>"

definition example_video :: "nat \<Rightarrow> int \<Rightarrow> capture" where
  "example_video n count =
     \<lparr>isOpened = True, frame_width = 640, frame_height = 480, frame_count = count,
      feed = replicate n (Some example_frame)\<rparr>"

definition missing_video :: capture where
  "missing_video =
     \<lparr>isOpened = False, frame_width = 0, frame_height = 0, frame_count = 0, feed = []\<rparr>"

definition no_targets :: "frame \<Rightarrow> xyxyn list" where
  "no_targets frame = []"

definition one_target :: "frame \<Rightarrow> xyxyn list" where
  "one_target frame = [(1 / 10, 1 / 10, 1 / 2, 1 / 2, 9 / 10, 0)]"

text \<open>A clock on which every iteration takes a tenth of a second, and one that stands still.\<close>

definition steady_clock :: "nat \<Rightarrow> rat" where
  "steady_clock k = of_nat k / 10"

definition frozen_clock :: "nat \<Rightarrow> rat" where
  "frozen_clock k = 0"

definition example_detector :: objdet where
  "example_detector = ObjectDetection (ascii ''in.mp4'') (ascii ''out.avi'')"

section \<open>Supporting lemmas\<close>

subsection \<open>Drawing\<close>

lemma trunc_unit_scaled: "0 \<le> r \<Longrightarrow> r \<le> 1 \<Longrightarrow> 0 \<le> trunc (r * of_nat w) \<and> trunc (r * of_nat w) \<le> int w"
proof -
  assume a: "0 \<le> r" "r \<le> 1"
  have nn: "0 \<le> r * of_nat w" using a by simp
  have "r * of_nat w \<le> of_nat w" using a by (simp add: mult_left_le_one_le)
  then have "\<lfloor>r * of_nat w\<rfloor> \<le> \<lfloor>(of_nat w :: rat)\<rfloor>" by (rule floor_mono)
  then have "\<lfloor>r * of_nat w\<rfloor> \<le> int w" by simp
  moreover have "0 \<le> \<lfloor>r * of_nat w\<rfloor>" using nn by simp
  ultimately show ?thesis using nn by (simp add: trunc_def)
qed

lemma denormalize_inside:
  assumes "in_unit_box row" "denormalize (cols frame) (rows frame) row = (x1, y1, x2, y2)"
  shows "inside frame (x1, y1) \<and> inside frame (x2, y2)"
  using assms trunc_unit_scaled
  by (auto simp: in_unit_box_def denormalize_def inside_def split: prod.splits)

lemma plot_one_shape [simp]: "rows (plot_one n x y row f) = rows f" "cols (plot_one n x y row f) = cols f"
  by (auto simp: plot_one_def Let_def split: prod.splits)

lemma inside_cong: "rows f = rows g \<Longrightarrow> cols f = cols g \<Longrightarrow> inside f p = inside g p"
  by (simp add: inside_def)

lemma box_inside_cong: "rows f = rows g \<Longrightarrow> cols f = cols g \<Longrightarrow> box_inside f d = box_inside g d"
  by (cases d) (auto simp: inside_def)

lemma plot_one_inside:
  assumes "in_unit_box row" "list_all (box_inside f) (drawn f)"
  shows "list_all (box_inside f) (drawn (plot_one n (cols f) (rows f) row f))"
proof -
  obtain x1 y1 x2 y2 where d: "denormalize (cols f) (rows f) row = (x1, y1, x2, y2)"
    by (cases "denormalize (cols f) (rows f) row") auto
  from denormalize_inside[OF assms(1) d] assms(2) d show ?thesis
    by (simp add: plot_one_def Let_def)
qed

lemma plot_rows_inside:
  assumes "plot_rows n (cols g) (rows g) cord idx f = Inr f'"
    and "list_all in_unit_box cord"
    and "rows f = rows g" "cols f = cols g"
    and "list_all (box_inside g) (drawn f)"
  shows "list_all (box_inside g) (drawn f') \<and> rows f' = rows g \<and> cols f' = cols g"
  using assms
proof (induction idx arbitrary: f)
  case Nil
  then show ?case by simp
next
  case (Cons i idx)
  from Cons.prems(1) have i: "i < length cord"
    and rest: "plot_rows n (cols g) (rows g) cord idx (plot_one n (cols g) (rows g) (cord ! i) f) = Inr f'"
    by (auto split: if_splits)
  from i Cons.prems(2) have u: "in_unit_box (cord ! i)" by (simp add: list_all_length)
  have "list_all (box_inside f) (drawn f)"
    using Cons.prems(3-5) box_inside_cong[of f g] by (simp add: list_all_iff)
  from plot_one_inside[OF u this, of n] Cons.prems(3,4)
  have "list_all (box_inside g) (drawn (plot_one n (cols g) (rows g) (cord ! i) f))"
    using box_inside_cong[of f g] by (simp add: list_all_iff)
  then show ?case using Cons.IH[OF rest Cons.prems(2)] Cons.prems(3,4) by simp
qed

text \<open>Every rectangle \<open>plot_boxes\<close> draws for boxes in the unit square lies within the frame.\<close>

lemma plot_boxes_within_frame:
  assumes "plot_boxes (labels, cord) frame = Inr frame'"
    and "list_all in_unit_box cord"
    and "list_all (box_inside frame) (drawn frame)"
  shows "list_all (box_inside frame) (drawn frame')"
  using plot_rows_inside[of "length labels" frame cord "[0..<length labels]" frame frame'] assms
  by (simp add: plot_boxes_def Let_def)

lemma plot_rows_in_range:
  "\<forall>i \<in> set idx. i < length cord \<Longrightarrow> \<exists>f'. plot_rows n x y cord idx f = Inr f'"
  by (induction idx arbitrary: f) auto

lemma plot_boxes_score_frame: "\<exists>f'. plot_boxes (score_frame model f) f = Inr f'"
  by (simp add: plot_boxes_def score_frame_def Let_def plot_rows_in_range)

subsection \<open>One iteration, a window, the whole loop\<close>

text \<open>An iteration away from the tenth frame of a window.\<close>

lemma body_inner:
  assumes "fc s \<noteq> 10" "plot_boxes (score_frame model f) f = Inr f'"
  shows "body model clock tfc f st s =
     Returned (s\<lparr>ticks := ticks s + 1,
                 fps := np_add (fps s) (np_recip (np_round (clock (ticks s) - st) 3)),
                 written := written s @ [f']\<rparr>)"
  using assms by (simp add: body_def Let_def)

lemma body_tenth:
  assumes "fc s = 10" "plot_boxes (score_frame model f) f = Inr f'"
  shows "body model clock tfc f st s =
     (case py_int (np_div_pos (np_add (fps s) (np_recip (np_round (clock (ticks s) - st) 3))) 10) of
        Inl e \<Rightarrow> Raised e (s\<lparr>ticks := ticks s + 1,
                 fps := np_add (fps s) (np_recip (np_round (clock (ticks s) - st) 3))\<rparr>)
      | Inr a \<Rightarrow>
          if tfc = 0
          then Raised ZeroDivisionError
                 (s\<lparr>ticks := ticks s + 1, fps := Fin (of_int a), tfcc := tfcc s + 10, fc := 0\<rparr>)
          else Returned
                 (s\<lparr>ticks := ticks s + 1, fps := Fin (of_int a), tfcc := tfcc s + 10, fc := 0,
                    stdout := stdout s @
                      [progress_line a (trunc (of_int (tfcc s + 10) / of_int tfc * 100))],
                    written := written s @ [f']\<rparr>))"
  using assms by (simp add: body_def Let_def split: sum.splits)

lemma body_Returned:
  assumes "body model clock tfc f st s = Returned s'"
  shows "\<exists>f'. annotates model f f' \<and> written s' = written s @ [f'] \<and> taken s' = taken s
     \<and> (if fc s = 10 then fc s' = 0 \<and> length (stdout s') = Suc (length (stdout s))
         else fc s' = fc s \<and> stdout s' = stdout s)"
proof -
  obtain f' where p: "plot_boxes (score_frame model f) f = Inr f'"
    using plot_boxes_score_frame by blast
  show ?thesis
  proof (cases "fc s = 10")
    case True
    from assms show ?thesis
      unfolding body_tenth[OF True p] using True p
      by (auto simp: annotates_def split: sum.splits if_splits)
  next
    case False
    from assms show ?thesis
      unfolding body_inner[OF False p] using False p
      by (auto simp: annotates_def)
  qed
qed

lemma body_Raised:
  assumes "body model clock tfc f st s = Raised e s'"
  shows "written s' = written s \<and> stdout s' = stdout s \<and> taken s' = taken s"
proof -
  obtain f' where p: "plot_boxes (score_frame model f) f = Inr f'"
    using plot_boxes_score_frame by blast
  show ?thesis
  proof (cases "fc s = 10")
    case True
    from assms show ?thesis
      unfolding body_tenth[OF True p]
      by (auto split: sum.splits if_splits)
  next
    case False
    from assms show ?thesis
      unfolding body_inner[OF False p] by simp
  qed
qed

lemma window_arith:
  "Suc n mod 10 = (if n mod 10 = 9 then 0 else Suc (n mod 10))"
  "Suc n div 10 = (if n mod 10 = 9 then Suc (n div 10) else n div 10)"
  by (simp_all add: mod_Suc div_Suc)

lemma loop_counts:
  assumes "fc s = int (length (written s) mod 10)"
    and "length (stdout s) = length (written s) div 10"
  shows "length (stdout (reached (loop model clock tfc fd s)))
       = length (written (reached (loop model clock tfc fd s))) div 10"
  using assms
proof (induction fd arbitrary: s)
  case Nil
  then show ?case by simp
next
  case (Cons r fd)
  show ?case
  proof (cases r)
    case None
    with Cons.prems show ?thesis by simp
  next
    case (Some f)
    let ?s0 = "s\<lparr>fc := fc s + 1, ticks := ticks s + 1, taken := taken s @ [f]\<rparr>"
    define n where "n = length (written s)"
    have fc0: "fc ?s0 = int (n mod 10) + 1" using Cons.prems(1) by (simp add: n_def)
    have tenth: "fc ?s0 = 10 \<longleftrightarrow> n mod 10 = 9" unfolding fc0 by linarith
    show ?thesis
    proof (cases "body model clock tfc f (clock (ticks s)) ?s0")
      case (Raised e s')
      from body_Raised[OF Raised] Cons.prems Some Raised show ?thesis by simp
    next
      case (Returned s')
      from body_Returned[OF Returned] obtain f' where
        w0: "written s' = written ?s0 @ [f']" and
        c: "if fc ?s0 = 10 then fc s' = 0 \<and> length (stdout s') = Suc (length (stdout ?s0))
            else fc s' = fc ?s0 \<and> stdout s' = stdout ?s0"
        by blast
      have w: "written s' = written s @ [f']" using w0 by simp
      have len: "length (written s') = Suc n" using w by (simp add: n_def)
      have i1: "fc s' = int (length (written s') mod 10)"
      proof (cases "n mod 10 = 9")
        case True
        with c tenth have "fc s' = 0" by simp
        with True show ?thesis unfolding len by (simp add: window_arith)
      next
        case False
        with c tenth have "fc s' = int (n mod 10) + 1" using fc0 by simp
        with False show ?thesis unfolding len by (simp add: window_arith)
      qed
      have i2: "length (stdout s') = length (written s') div 10"
      proof (cases "n mod 10 = 9")
        case True
        with c tenth have "length (stdout s') = Suc (length (stdout s))" by simp
        with True Cons.prems(2) show ?thesis unfolding len by (simp add: window_arith n_def)
      next
        case False
        with c tenth have "stdout s' = stdout s" by simp
        with False Cons.prems(2) show ?thesis unfolding len by (simp add: window_arith n_def)
      qed
      from Cons.IH[OF i1 i2] Some Returned show ?thesis by simp
    qed
  qed
qed

lemma loop_frames:
  "\<exists>tk out. taken (reached (loop model clock tfc fd s)) = taken s @ tk
      \<and> written (reached (loop model clock tfc fd s)) = written s @ out
      \<and> tk = take (length tk) (readable fd)
      \<and> length out \<le> length tk \<and> length tk \<le> Suc (length out)
      \<and> list_all2 (annotates model) (take (length out) tk) out
      \<and> (\<forall>s'. loop model clock tfc fd s = Returned s' \<longrightarrow>
            tk = readable fd \<and> length out = length tk)
      \<and> (\<forall>e s'. loop model clock tfc fd s = Raised e s' \<longrightarrow> length tk = Suc (length out))"
proof (induction fd arbitrary: s)
  case Nil
  show ?case by (simp add: readable_def)
next
  case (Cons r fd)
  show ?case
  proof (cases r)
    case None
    then show ?thesis by (simp add: readable_def)
  next
    case (Some f)
    let ?s0 = "s\<lparr>fc := fc s + 1, ticks := ticks s + 1, taken := taken s @ [f]\<rparr>"
    have rd: "readable (r # fd) = f # readable fd" using Some by (simp add: readable_def)
    show ?thesis
    proof (cases "body model clock tfc f (clock (ticks s)) ?s0")
      case (Raised e s')
      have lp: "loop model clock tfc (r # fd) s = Raised e s'"
        using Some Raised by simp
      from body_Raised[OF Raised] have "taken s' = taken s @ [f]" "written s' = written s @ []"
        by simp_all
      then show ?thesis
        unfolding lp rd by (intro exI[of _ "[f]"] exI[of _ "[]"]) simp
    next
      case (Returned s')
      from body_Returned[OF Returned] obtain f' where
        a: "annotates model f f'" and w0: "written s' = written ?s0 @ [f']"
        and t0: "taken s' = taken ?s0"
        by blast
      have w: "written s' = written s @ [f']" and t: "taken s' = taken s @ [f]"
        using w0 t0 by simp_all
      let ?r = "reached (loop model clock tfc fd s')"
      from Cons.IH[of s'] obtain tk out where
        o1: "taken ?r = taken s' @ tk" and
        o2: "written ?r = written s' @ out" and
        o3: "tk = take (length tk) (readable fd)" and
        o4: "length out \<le> length tk" "length tk \<le> Suc (length out)" and
        o5: "list_all2 (annotates model) (take (length out) tk) out" and
        o6: "\<forall>s''. loop model clock tfc fd s' = Returned s'' \<longrightarrow>
            tk = readable fd \<and> length out = length tk" and
        o7: "\<forall>e s''. loop model clock tfc fd s' = Raised e s'' \<longrightarrow> length tk = Suc (length out)"
        by blast
      have lp: "loop model clock tfc (r # fd) s = loop model clock tfc fd s'"
        using Some Returned by simp
      have g1: "taken ?r = taken s @ (f # tk)" using o1 t by simp
      have g2: "written ?r = written s @ (f' # out)" using o2 w by simp
      have g3: "f # tk = take (length (f # tk)) (f # readable fd)" using o3 by simp
      have g4: "length (f' # out) \<le> length (f # tk)" "length (f # tk) \<le> Suc (length (f' # out))"
        using o4 by simp_all
      have g5: "list_all2 (annotates model) (take (length (f' # out)) (f # tk)) (f' # out)"
        using o5 a by simp
      have g6: "\<forall>s''. loop model clock tfc fd s' = Returned s'' \<longrightarrow>
            f # tk = f # readable fd \<and> length (f' # out) = length (f # tk)"
        using o6 by simp
      have g7: "\<forall>e s''. loop model clock tfc fd s' = Raised e s'' \<longrightarrow>
            length (f # tk) = Suc (length (f' # out))"
        using o7 by simp
      show ?thesis
        unfolding lp rd using g1 g2 g3 g4 g5 g6 g7 by blast
    qed
  qed
qed

lemma plot_boxes_annotate: "plot_boxes (score_frame model f) f = Inr (annotate model f)"
  using plot_boxes_score_frame[of model f] by (auto simp: annotate_def)

text \<open>The first \<open>j < 10\<close> iterations of a window, as one step.\<close>

lemma loop_inner:
  assumes "fc s + int (length fs) < 10"
  shows "loop model clock tfc (map Some fs @ rest) s =
     loop model clock tfc rest
       (s\<lparr>fc := fc s + int (length fs), ticks := ticks s + 2 * length fs,
          taken := taken s @ fs,
          fps := accumulated clock (ticks s) (length fs) (fps s),
          written := written s @ map (annotate model) fs\<rparr>)"
  using assms
proof (induction fs arbitrary: s)
  case Nil
  show ?case by simp
next
  case (Cons f fs)
  let ?s0 = "s\<lparr>fc := fc s + 1, ticks := ticks s + 1, taken := taken s @ [f]\<rparr>"
  let ?s1 = "?s0\<lparr>ticks := ticks ?s0 + 1,
                 fps := np_add (fps ?s0) (np_recip (np_round (clock (ticks ?s0) - clock (ticks s)) 3)),
                 written := written ?s0 @ [annotate model f]\<rparr>"
  have ne: "fc ?s0 \<noteq> 10" using Cons.prems by simp
  have b: "body model clock tfc f (clock (ticks s)) ?s0 = Returned ?s1"
    by (rule body_inner[OF ne plot_boxes_annotate])
  have lp: "loop model clock tfc (map Some (f # fs) @ rest) s
          = loop model clock tfc (map Some fs @ rest) ?s1"
    using b by simp
  have pre: "fc ?s1 + int (length fs) < 10" using Cons.prems by simp
  show ?case
    unfolding lp Cons.IH[OF pre] by (simp add: elapsed_def add.assoc)
qed

text \<open>The tenth iteration of a window.\<close>

lemma loop_tenth:
  assumes "fc s = 9"
  shows "loop model clock tfc (Some f # rest) s =
     (case py_int (np_div_pos (np_add (fps s) (np_recip (np_round (elapsed clock (ticks s)) 3))) 10) of
        Inl e \<Rightarrow>
          Raised e (s\<lparr>fc := 10, ticks := ticks s + 2, taken := taken s @ [f],
                      fps := np_add (fps s) (np_recip (np_round (elapsed clock (ticks s)) 3))\<rparr>)
      | Inr a \<Rightarrow>
          if tfc = 0
          then Raised ZeroDivisionError
                 (s\<lparr>fc := 0, ticks := ticks s + 2, taken := taken s @ [f],
                    fps := Fin (of_int a), tfcc := tfcc s + 10\<rparr>)
          else loop model clock tfc rest
                 (s\<lparr>fc := 0, ticks := ticks s + 2, taken := taken s @ [f],
                    fps := Fin (of_int a), tfcc := tfcc s + 10,
                    stdout := stdout s @
                      [progress_line a (trunc (of_int (tfcc s + 10) / of_int tfc * 100))],
                    written := written s @ [annotate model f]\<rparr>))"
proof -
  let ?s0 = "s\<lparr>fc := fc s + 1, ticks := ticks s + 1, taken := taken s @ [f]\<rparr>"
  have ten: "fc ?s0 = 10" using assms by simp
  have lp: "loop model clock tfc (Some f # rest) s =
     (case body model clock tfc f (clock (ticks s)) ?s0 of
        Raised e s' \<Rightarrow> Raised e s'
      | Returned s' \<Rightarrow> loop model clock tfc rest s')"
    by (simp only: loop.simps)
  show ?thesis
    unfolding lp body_tenth[OF ten plot_boxes_annotate]
    using assms
    by (auto simp: elapsed_def split: sum.splits
          intro!: arg_cong[where f = "loop model clock tfc rest"])
qed

lemma accumulated_end:
  "accumulated clock t (Suc j) a =
     np_add (accumulated clock t j a) (np_recip (np_round (elapsed clock (t + 2 * j)) 3))"
proof (induction j arbitrary: t a)
  case 0
  show ?case by simp
next
  case (Suc j)
  have "accumulated clock t (Suc (Suc j)) a =
        accumulated clock (t + 2) (Suc j) (np_add a (np_recip (np_round (elapsed clock t) 3)))"
    by simp
  also have "\<dots> = np_add (accumulated clock (t + 2) j (np_add a (np_recip (np_round (elapsed clock t) 3))))
                     (np_recip (np_round (elapsed clock (t + 2 + 2 * j)) 3))"
    by (rule Suc.IH)
  finally show ?case by (simp add: add.assoc)
qed

text \<open>A whole window of ten iterations, as one step.\<close>

lemma loop_window:
  assumes "fc s = 0" "length fs = 10"
  shows "loop model clock tfc (map Some fs @ rest) s =
     (case py_int (np_div_pos (accumulated clock (ticks s) 10 (fps s)) 10) of
        Inl e \<Rightarrow>
          Raised e (s\<lparr>fc := 10, ticks := ticks s + 20, taken := taken s @ fs,
                      fps := accumulated clock (ticks s) 10 (fps s),
                      written := written s @ map (annotate model) (butlast fs)\<rparr>)
      | Inr a \<Rightarrow>
          if tfc = 0
          then Raised ZeroDivisionError
                 (s\<lparr>fc := 0, ticks := ticks s + 20, taken := taken s @ fs,
                    fps := Fin (of_int a), tfcc := tfcc s + 10,
                    written := written s @ map (annotate model) (butlast fs)\<rparr>)
          else loop model clock tfc rest
                 (s\<lparr>fc := 0, ticks := ticks s + 20, taken := taken s @ fs,
                    fps := Fin (of_int a), tfcc := tfcc s + 10,
                    stdout := stdout s @
                      [progress_line a (trunc (of_int (tfcc s + 10) / of_int tfc * 100))],
                    written := written s @ map (annotate model) fs\<rparr>))"
proof -
  from assms(2) obtain xs x where sp: "fs = xs @ [x]" and l9: "length xs = 9"
    by (cases fs rule: rev_cases) auto
  let ?s9 = "s\<lparr>fc := fc s + int (length xs), ticks := ticks s + 2 * length xs,
          taken := taken s @ xs,
          fps := accumulated clock (ticks s) (length xs) (fps s),
          written := written s @ map (annotate model) xs\<rparr>"
  have "loop model clock tfc (map Some fs @ rest) s
      = loop model clock tfc (map Some xs @ (Some x # rest)) s"
    by (simp add: sp)
  also have "\<dots> = loop model clock tfc (Some x # rest) ?s9"
    by (rule loop_inner) (simp add: assms(1) l9)
  finally have lp: "loop model clock tfc (map Some fs @ rest) s
                  = loop model clock tfc (Some x # rest) ?s9" .
  have f9: "fc ?s9 = 9" using assms(1) l9 by simp
  have acc: "accumulated clock (ticks s) 10 (fps s) =
     np_add (accumulated clock (ticks s) 9 (fps s)) (np_recip (np_round (elapsed clock (ticks s + 18)) 3))"
    using accumulated_end[of clock "ticks s" 9 "fps s"] by simp
  show ?thesis
    unfolding lp loop_tenth[OF f9]
    by (auto simp: l9 acc sp split: sum.splits
          intro!: arg_cong[where f = "loop model clock tfc rest"])
qed

subsection \<open>The FPS accumulator\<close>

lemma rint_small: "0 \<le> x \<Longrightarrow> x < 1 / 2 \<Longrightarrow> rint x = 0"
proof -
  assume a: "0 \<le> x" "x < 1 / 2"
  then have f: "\<lfloor>x\<rfloor> = 0" by (simp add: floor_eq_iff)
  show ?thesis using a by (simp add: rint_def f Let_def)
qed

lemma rint_large: "1 / 2 < x \<Longrightarrow> 1 \<le> rint x"
proof -
  assume a: "1 / 2 < x"
  have f0: "0 \<le> \<lfloor>x\<rfloor>" using a by simp
  show ?thesis
  proof (cases "\<lfloor>x\<rfloor> = 0")
    case True
    then show ?thesis using a by (simp add: rint_def Let_def)
  next
    case False
    with f0 have "1 \<le> \<lfloor>x\<rfloor>" by linarith
    then show ?thesis by (simp add: rint_def Let_def)
  qed
qed

lemma rint_nonneg: "0 \<le> x \<Longrightarrow> 0 \<le> rint x"
proof -
  assume a: "0 \<le> x"
  then have "0 \<le> \<lfloor>x\<rfloor>" by simp
  then show ?thesis by (simp add: rint_def Let_def)
qed

lemma rate_fast: "0 \<le> d \<Longrightarrow> d < 1 / 2000 \<Longrightarrow> np_recip (np_round d 3) = PInf"
proof -
  assume a: "0 \<le> d" "d < 1 / 2000"
  then have "rint (d * 10 ^ 3) = 0" by (intro rint_small) simp_all
  then show ?thesis using a by (simp add: np_round_def Let_def)
qed

lemma rate_slow: "1 / 2000 < d \<Longrightarrow> \<exists>q. np_recip (np_round d 3) = Fin q"
proof -
  assume a: "1 / 2000 < d"
  then have "1 \<le> rint (d * 10 ^ 3)" by (intro rint_large) simp
  then show ?thesis using a by (simp add: np_round_def Let_def)
qed

lemma rate_forward: "0 \<le> d \<Longrightarrow> np_recip (np_round d 3) = PInf \<or> (\<exists>q. np_recip (np_round d 3) = Fin q)"
proof -
  assume a: "0 \<le> d"
  then have "0 \<le> rint (d * 10 ^ 3)" by (intro rint_nonneg) simp
  then show ?thesis using a by (auto simp: np_round_def Let_def)
qed

lemma accumulated_finite:
  "\<forall>k<j. 1 / 2000 < elapsed clock (t + 2 * k) \<Longrightarrow> \<exists>q. accumulated clock t j (Fin a) = Fin q"
proof (induction j arbitrary: t a)
  case 0
  show ?case by simp
next
  case (Suc j)
  from Suc.prems have "1 / 2000 < elapsed clock t" by force
  then obtain q where q: "np_recip (np_round (elapsed clock t) 3) = Fin q"
    using rate_slow by blast
  have "\<forall>k<j. 1 / 2000 < elapsed clock (t + 2 + 2 * k)"
  proof (intro allI impI)
    fix k assume "k < j"
    then have "Suc k < Suc j" by simp
    with Suc.prems have "1 / 2000 < elapsed clock (t + 2 * Suc k)" by blast
    then show "1 / 2000 < elapsed clock (t + 2 + 2 * k)" by (simp add: add.assoc)
  qed
  from Suc.IH[OF this] show ?case by (simp add: q)
qed

lemma accumulated_stays_infinite:
  "\<forall>k<j. 0 \<le> elapsed clock (t + 2 * k) \<Longrightarrow> accumulated clock t j PInf = PInf"
proof (induction j arbitrary: t)
  case 0
  show ?case by simp
next
  case (Suc j)
  from Suc.prems have "0 \<le> elapsed clock t" by force
  from rate_forward[OF this] have st: "np_add PInf (np_recip (np_round (elapsed clock t) 3)) = PInf"
    by auto
  have "\<forall>k<j. 0 \<le> elapsed clock (t + 2 + 2 * k)"
  proof (intro allI impI)
    fix k assume "k < j"
    then have "Suc k < Suc j" by simp
    with Suc.prems have "0 \<le> elapsed clock (t + 2 * Suc k)" by blast
    then show "0 \<le> elapsed clock (t + 2 + 2 * k)" by (simp add: add.assoc)
  qed
  from Suc.IH[OF this] show ?case by (simp add: st)
qed

lemma accumulated_infinite:
  "\<forall>k<j. 0 \<le> elapsed clock (t + 2 * k) \<Longrightarrow> i < j \<Longrightarrow> elapsed clock (t + 2 * i) < 1 / 2000
   \<Longrightarrow> accumulated clock t j (Fin a) = PInf"
proof (induction j arbitrary: t a i)
  case 0
  then show ?case by simp
next
  case (Suc j)
  from Suc.prems(1) have e0: "0 \<le> elapsed clock t" by force
  have rest: "\<forall>k<j. 0 \<le> elapsed clock (t + 2 + 2 * k)"
  proof (intro allI impI)
    fix k assume "k < j"
    then have "Suc k < Suc j" by simp
    with Suc.prems(1) have "0 \<le> elapsed clock (t + 2 * Suc k)" by blast
    then show "0 \<le> elapsed clock (t + 2 + 2 * k)" by (simp add: add.assoc)
  qed
  show ?case
  proof (cases i)
    case 0
    with Suc.prems(3) have "elapsed clock t < 1 / 2000" by simp
    from rate_fast[OF e0 this] accumulated_stays_infinite[OF rest] show ?thesis by simp
  next
    case (Suc i')
    with Suc.prems(2,3) have i': "i' < j" "elapsed clock (t + 2 + 2 * i') < 1 / 2000"
      by (simp_all add: add.assoc)
    from rate_forward[OF e0] show ?thesis
    proof
      assume "np_recip (np_round (elapsed clock t) 3) = PInf"
      with accumulated_stays_infinite[OF rest] show ?thesis by simp
    next
      assume "\<exists>q. np_recip (np_round (elapsed clock t) 3) = Fin q"
      then obtain q where "np_recip (np_round (elapsed clock t) 3) = Fin q" by blast
      with Suc.IH[OF rest i'] show ?thesis by simp
    qed
  qed
qed

subsection \<open>A window that ends in an exception\<close>

lemma zero_count_window:
  assumes "fc s = 0" "fps s = Fin a" "length fs = 10"
    and "\<forall>k<10. 1 / 2000 < elapsed clock (ticks s + 2 * k)"
  shows "loop model clock 0 (map Some fs @ rest) s =
     Raised ZeroDivisionError (reached (loop model clock 0 (map Some fs @ rest) s))
     \<and> taken (reached (loop model clock 0 (map Some fs @ rest) s)) = taken s @ fs
     \<and> written (reached (loop model clock 0 (map Some fs @ rest) s))
         = written s @ map (annotate model) (butlast fs)
     \<and> stdout (reached (loop model clock 0 (map Some fs @ rest) s)) = stdout s"
proof -
  from accumulated_finite[OF assms(4), of a] obtain q
    where q: "accumulated clock (ticks s) 10 (fps s) = Fin q"
    using assms(2) by auto
  show ?thesis
    unfolding loop_window[OF assms(1,3)] q by simp
qed

lemma overflow_window:
  assumes "fc s = 0" "fps s = Fin a" "length fs = 10"
    and "\<forall>k<10. 0 \<le> elapsed clock (ticks s + 2 * k)"
    and "i < 10" "elapsed clock (ticks s + 2 * i) < 1 / 2000"
  shows "loop model clock tfc (map Some fs @ rest) s =
     Raised OverflowError (reached (loop model clock tfc (map Some fs @ rest) s))
     \<and> taken (reached (loop model clock tfc (map Some fs @ rest) s)) = taken s @ fs
     \<and> written (reached (loop model clock tfc (map Some fs @ rest) s))
         = written s @ map (annotate model) (butlast fs)
     \<and> stdout (reached (loop model clock tfc (map Some fs @ rest) s)) = stdout s"
proof -
  have q: "accumulated clock (ticks s) 10 (fps s) = PInf"
    unfolding assms(2) by (rule accumulated_infinite[OF assms(4,5,6)])
  show ?thesis
    unfolding loop_window[OF assms(1,3)] q by simp
qed

lemma raised_None: "raised r = None \<longleftrightarrow> r = Returned (reached r)"
  by (cases r) simp_all

lemma session0_fields:
  "fc session0 = 0" "fps session0 = Fin 0" "tfcc session0 = 0" "ticks session0 = 0"
  "taken session0 = []" "stdout session0 = []" "written session0 = []"
  by (simp_all add: session0_def)

subsection \<open>Runs in terms of the loop\<close>

lemma call_not_opened:
  "\<not> isOpened (videos (input_file self)) \<Longrightarrow>
   call videos model clock self = Raised AssertionError (nothing_done\<lparr>source := Some (input_file self)\<rparr>)"
  by (simp add: call_def Let_def)

lemma call_opened:
  assumes "isOpened (videos (input_file self))"
  shows "raised (call videos model clock self) =
           raised (loop model clock (frame_count (videos (input_file self)))
                     (feed (videos (input_file self))) session0)"
    and "frames_in (reached (call videos model clock self)) =
           taken (reached (loop model clock (frame_count (videos (input_file self)))
                     (feed (videos (input_file self))) session0))"
    and "frames_out (reached (call videos model clock self)) =
           written (reached (loop model clock (frame_count (videos (input_file self)))
                     (feed (videos (input_file self))) session0))"
    and "console (reached (call videos model clock self)) =
           stdout (reached (loop model clock (frame_count (videos (input_file self)))
                     (feed (videos (input_file self))) session0))"
    and "player_released (reached (call videos model clock self)) =
           (raised (loop model clock (frame_count (videos (input_file self)))
                     (feed (videos (input_file self))) session0) = None)"
    and "out_released (reached (call videos model clock self)) = False"
    and "sink (reached (call videos model clock self)) =
           Some (out_file self, ''MJPG'', 20, frame_width (videos (input_file self)),
                 frame_height (videos (input_file self)))"
  using assms
  by (simp_all add: call_def Let_def nothing_done_def split: outcome.splits)

subsection \<open>The example inputs\<close>

lemma elapsed_steady: "elapsed steady_clock t = 1 / 10"
  by (simp add: elapsed_def steady_clock_def field_simps)

lemma elapsed_frozen: "elapsed frozen_clock t = 0"
  by (simp add: elapsed_def frozen_clock_def)

lemma rint_100: "rint 100 = 100"
  by (simp add: rint_def Let_def)

lemma rate_steady: "np_recip (np_round (elapsed steady_clock t) 3) = Fin 10"
  by (simp add: elapsed_steady np_round_def Let_def rint_100)

lemma accumulated_steady: "accumulated steady_clock t j (Fin a) = Fin (a + 10 * of_nat j)"
  by (induction j arbitrary: t a) (simp_all add: rate_steady algebra_simps)

lemma annotate_no_targets: "annotate no_targets f = f"
  by (simp add: annotate_def score_frame_def no_targets_def plot_boxes_def)

lemma feed_example: "feed (example_video n c) = replicate n (Some example_frame)"
  by (simp add: example_video_def)

lemma butlast_replicate_ten: "butlast (replicate 10 x) = replicate 9 x"
proof -
  have "replicate 10 x = replicate (Suc 9) x" by simp
  also have "\<dots> = replicate 9 x @ [x]"
    by (simp only: replicate_append_same replicate_Suc)
  finally have "replicate 10 x = replicate 9 x @ [x]" .
  then show ?thesis by (simp only: butlast_snoc)
qed

lemma replicate_feed: "replicate n (Some f) = map Some (replicate n f) @ []"
  by simp

lemma example_opened: "isOpened (example_video n c)" "frame_count (example_video n c) = c"
  "frame_width (example_video n c) = 640" "frame_height (example_video n c) = 480"
  by (simp_all add: example_video_def)

lemma line_10_100: "progress_line 10 100 = ''Frames Per Second : 10 || Percentage Parsed : 100''"
  by (simp add: progress_line_def str_int_def digits.simps digit_char_def)

lemma ten_frame_loop:
  "loop no_targets steady_clock 10 (replicate 10 (Some example_frame)) session0 =
     Returned \<lparr>fc = 1, fps = Fin 10, tfcc = 10, ticks = 21, taken = replicate 10 example_frame,
       stdout = [''Frames Per Second : 10 || Percentage Parsed : 100''],
       written = replicate 10 example_frame\<rparr>"
proof -
  have w: "loop no_targets steady_clock 10 (map Some (replicate 10 example_frame) @ []) session0 =
     loop no_targets steady_clock 10 []
       (session0\<lparr>fc := 0, ticks := ticks session0 + 20,
          taken := taken session0 @ replicate 10 example_frame,
          fps := Fin (of_int 10), tfcc := tfcc session0 + 10,
          stdout := stdout session0 @ [progress_line 10 (trunc (of_int (tfcc session0 + 10) / of_int 10 * 100))],
          written := written session0 @ map (annotate no_targets) (replicate 10 example_frame)\<rparr>)"
    by (subst loop_window) (simp_all add: session0_def accumulated_steady trunc_def)
  show ?thesis
    unfolding replicate_feed w
    by (simp add: session0_def trunc_def line_10_100 annotate_no_targets)
qed

lemma ten_frame_call:
  "call (\<lambda>p. example_video 10 10) no_targets steady_clock example_detector =
     Returned \<lparr>source = Some (ascii ''in.mp4''),
       sink = Some (ascii ''out.avi'', ''MJPG'', 20, 640, 480),
       frames_in = replicate 10 example_frame,
       frames_out = replicate 10 example_frame,
       console = [''Frames Per Second : 10 || Percentage Parsed : 100''],
       player_released = True, out_released = False\<rparr>"
  by (simp add: call_def Let_def example_opened feed_example ten_frame_loop
        example_detector_def ObjectDetection_def nothing_done_def)

lemma three_frame_call:
  "call (\<lambda>p. example_video 3 3) no_targets steady_clock example_detector =
     Returned \<lparr>source = Some (ascii ''in.mp4''),
       sink = Some (ascii ''out.avi'', ''MJPG'', 20, 640, 480),
       frames_in = replicate 3 example_frame,
       frames_out = replicate 3 example_frame,
       console = [],
       player_released = True, out_released = False\<rparr>"
proof -
  have "loop no_targets steady_clock 3 (map Some (replicate 3 example_frame) @ []) session0 =
     Returned \<lparr>fc = 4, fps = Fin 30, tfcc = 0, ticks = 7, taken = replicate 3 example_frame,
       stdout = [], written = replicate 3 example_frame\<rparr>"
    by (subst loop_inner)
       (simp_all add: session0_def accumulated_steady annotate_no_targets)
  then show ?thesis
    by (simp add: call_def Let_def example_opened feed_example
          example_detector_def ObjectDetection_def nothing_done_def)
qed

lemma frozen_run:
  "call (\<lambda>p. example_video 10 10) no_targets frozen_clock example_detector =
     Raised OverflowError \<lparr>source = Some (ascii ''in.mp4''),
       sink = Some (ascii ''out.avi'', ''MJPG'', 20, 640, 480),
       frames_in = replicate 10 example_frame,
       frames_out = replicate 9 example_frame,
       console = [],
       player_released = False, out_released = False\<rparr>"
proof -
  let ?r = "loop no_targets frozen_clock 10 (map Some (replicate 10 example_frame) @ []) session0"
  have "?r = Raised OverflowError (reached ?r)
     \<and> taken (reached ?r) = taken session0 @ replicate 10 example_frame
     \<and> written (reached ?r) = written session0 @ map (annotate no_targets) (butlast (replicate 10 example_frame))
     \<and> stdout (reached ?r) = stdout session0"
    by (rule overflow_window[where a = 0 and i = 0])
       (simp_all add: session0_fields elapsed_frozen)
  then have "?r = Raised OverflowError (reached ?r)" "taken (reached ?r) = replicate 10 example_frame"
    "written (reached ?r) = replicate 9 example_frame" "stdout (reached ?r) = []"
    by (simp_all add: session0_fields annotate_no_targets butlast_replicate_ten)
  then have "\<exists>s. ?r = Raised OverflowError s \<and> taken s = replicate 10 example_frame
     \<and> written s = replicate 9 example_frame \<and> stdout s = []"
    by metis
  then show ?thesis
    by (auto simp: call_def Let_def example_opened feed_example
          example_detector_def ObjectDetection_def nothing_done_def)
qed

lemma zero_count_run:
  "call (\<lambda>p. example_video 10 0) no_targets steady_clock example_detector =
     Raised ZeroDivisionError \<lparr>source = Some (ascii ''in.mp4''),
       sink = Some (ascii ''out.avi'', ''MJPG'', 20, 640, 480),
       frames_in = replicate 10 example_frame,
       frames_out = replicate 9 example_frame,
       console = [],
       player_released = False, out_released = False\<rparr>"
proof -
  let ?r = "loop no_targets steady_clock 0 (map Some (replicate 10 example_frame) @ []) session0"
  have "?r = Raised ZeroDivisionError (reached ?r)
     \<and> taken (reached ?r) = taken session0 @ replicate 10 example_frame
     \<and> written (reached ?r) = written session0 @ map (annotate no_targets) (butlast (replicate 10 example_frame))
     \<and> stdout (reached ?r) = stdout session0"
    by (rule zero_count_window[where a = 0])
       (simp_all add: session0_fields elapsed_steady)
  then have "?r = Raised ZeroDivisionError (reached ?r)" "taken (reached ?r) = replicate 10 example_frame"
    "written (reached ?r) = replicate 9 example_frame" "stdout (reached ?r) = []"
    by (simp_all add: session0_fields annotate_no_targets butlast_replicate_ten)
  then have "\<exists>s. ?r = Raised ZeroDivisionError s \<and> taken s = replicate 10 example_frame
     \<and> written s = replicate 9 example_frame \<and> stdout s = []"
    by metis
  then show ?thesis
    by (auto simp: call_def Let_def example_opened feed_example
          example_detector_def ObjectDetection_def nothing_done_def)
qed

lemma one_frame_frozen_run:
  "call (\<lambda>p. example_video 1 1) no_targets frozen_clock example_detector =
     Returned \<lparr>source = Some (ascii ''in.mp4''),
       sink = Some (ascii ''out.avi'', ''MJPG'', 20, 640, 480),
       frames_in = [example_frame],
       frames_out = [example_frame],
       console = [],
       player_released = True, out_released = False\<rparr>"
proof -
  have "loop no_targets frozen_clock 1 (map Some [example_frame] @ []) session0 =
     Returned \<lparr>fc = 2, fps = PInf, tfcc = 0, ticks = 3, taken = [example_frame],
       stdout = [], written = [example_frame]\<rparr>"
    by (subst loop_inner)
       (simp_all add: session0_def rate_fast elapsed_frozen annotate_no_targets)
  then show ?thesis
    by (simp add: call_def Let_def example_opened feed_example
          example_detector_def ObjectDetection_def nothing_done_def)
qed

lemma steady_window:
  assumes "fc s = 0" "fps s = Fin a" "length fs = 10" "tfc \<noteq> 0"
  shows "loop model steady_clock tfc (map Some fs @ rest) s =
     loop model steady_clock tfc rest
       (s\<lparr>fc := 0, ticks := ticks s + 20, taken := taken s @ fs,
          fps := Fin (of_int (trunc ((a + 100) / 10))), tfcc := tfcc s + 10,
          stdout := stdout s @
            [progress_line (trunc ((a + 100) / 10))
               (trunc (of_int (tfcc s + 10) / of_int tfc * 100))],
          written := written s @ map (annotate model) fs\<rparr>)"
  by (subst loop_window) (simp_all add: assms accumulated_steady)

lemma line_10_50: "progress_line 10 50 = ''Frames Per Second : 10 || Percentage Parsed : 50''"
  by (simp add: progress_line_def str_int_def digits.simps digit_char_def)

lemma line_11_100: "progress_line 11 100 = ''Frames Per Second : 11 || Percentage Parsed : 100''"
  by (simp add: progress_line_def str_int_def digits.simps digit_char_def)

lemma twenty_frame_loop:
  "stdout (reached (loop no_targets steady_clock 20 (replicate 20 (Some example_frame)) session0)) =
     [''Frames Per Second : 10 || Percentage Parsed : 50'',
      ''Frames Per Second : 11 || Percentage Parsed : 100'']"
proof -
  let ?xs = "replicate 10 example_frame"
  let ?S1 = "session0\<lparr>fc := 0, ticks := ticks session0 + 20, taken := taken session0 @ ?xs,
          fps := Fin (of_int (trunc ((0 + 100) / 10))), tfcc := tfcc session0 + 10,
          stdout := stdout session0 @
            [progress_line (trunc ((0 + 100) / 10))
               (trunc (of_int (tfcc session0 + 10) / of_int 20 * 100))],
          written := written session0 @ map (annotate no_targets) ?xs\<rparr>"
  let ?S2 = "?S1\<lparr>fc := 0, ticks := ticks ?S1 + 20, taken := taken ?S1 @ ?xs,
          fps := Fin (of_int (trunc ((10 + 100) / 10))), tfcc := tfcc ?S1 + 10,
          stdout := stdout ?S1 @
            [progress_line (trunc ((10 + 100) / 10))
               (trunc (of_int (tfcc ?S1 + 10) / of_int 20 * 100))],
          written := written ?S1 @ map (annotate no_targets) ?xs\<rparr>"
  have sp: "replicate 20 (Some example_frame) = map Some ?xs @ (map Some ?xs @ [])"
    by (simp flip: replicate_add)
  have t1: "trunc ((0 + 100) / 10) = 10" "trunc ((10 + 100) / 10) = 11"
    by (simp_all add: trunc_def)
  have w1: "loop no_targets steady_clock 20 (map Some ?xs @ (map Some ?xs @ [])) session0
          = loop no_targets steady_clock 20 (map Some ?xs @ []) ?S1"
    by (rule steady_window) (simp_all add: session0_def)
  have w2: "loop no_targets steady_clock 20 (map Some ?xs @ []) ?S1
          = loop no_targets steady_clock 20 [] ?S2"
    by (rule steady_window) (simp_all add: session0_def trunc_def)
  have "stdout (reached (loop no_targets steady_clock 20 [] ?S2)) =
     [progress_line 10 50, progress_line 11 100]"
    by (simp add: session0_def trunc_def)
  then show ?thesis
    unfolding sp w1 w2 by (simp only: line_10_50 line_11_100)
qed

text \<open>The same in general: after the tenth frame the accumulator holds the reported value.\<close>

lemma accumulator_after_window:
  assumes "fc s = 9" "tfc \<noteq> 0"
    and "py_int (np_div_pos (np_add (fps s) (np_recip (np_round (elapsed clock (ticks s)) 3))) 10) = Inr a"
  shows "\<exists>s'. loop model clock tfc [Some f] s = Returned s' \<and> fps s' = Fin (of_int a)
           \<and> stdout s' = stdout s @ [progress_line a (trunc (of_int (tfcc s + 10) / of_int tfc * 100))]"
  unfolding loop_tenth[OF assms(1)] by (simp add: assms)

subsection \<open>The driver cell\<close>

lemma driver_ignores_argv:
  "2 < length argv \<Longrightarrow>
   driver videos model clock argv = call videos model clock (ObjectDetection literal_input literal_output)"
  by (simp add: driver_def Let_def)

lemma literal_input_not_argument: "literal_input \<noteq> ascii ''in.mp4''"
proof
  assume "literal_input = ascii ''in.mp4''"
  then have "length literal_input = length (ascii ''in.mp4'')" by simp
  then show False by (simp add: literal_input_def ascii_def)
qed

subsection \<open>What plot_boxes adds to a frame\<close>

lemma plot_one_marks:
  "plot_one n x y row f = f\<lparr>drawn := drawn f @ box_marks n x y row\<rparr>"
  by (simp add: plot_one_def box_marks_def Let_def split: prod.splits)

lemma box_marks_length: "length (box_marks n x y row) = 3"
  by (simp add: plot_one_def box_marks_def Let_def split: prod.splits)

lemma box_marks_rectangle:
  assumes "in_unit_box row"
  shows "\<exists>x1 y1 x2 y2. box_marks n (cols f) (rows f) row ! 0 = Rectangle (x1, y1) (x2, y2) (0, 0, 255) 3
           \<and> inside f (x1, y1) \<and> inside f (x2, y2)"
proof -
  obtain x1 y1 x2 y2 where d: "denormalize (cols f) (rows f) row = (x1, y1, x2, y2)"
    by (cases "denormalize (cols f) (rows f) row") auto
  from denormalize_inside[OF assms d] d show ?thesis
    by (simp add: plot_one_def box_marks_def Let_def)
qed

lemma plot_rows_drawn:
  "plot_rows n x y cord idx f = Inr f' \<Longrightarrow>
   drawn f' = drawn f @ concat (map (\<lambda>i. box_marks n x y (cord ! i)) idx)"
proof (induction idx arbitrary: f)
  case Nil
  then show ?case by simp
next
  case (Cons i idx)
  from Cons.prems have
    rest: "plot_rows n x y cord idx (plot_one n x y (cord ! i) f) = Inr f'"
    by (auto split: if_splits)
  from Cons.IH[OF rest] show ?case by (simp add: plot_one_marks)
qed

lemma concat_triples_length:
  "\<forall>j. length (g j) = 3 \<Longrightarrow> length (concat (map g idx)) = 3 * length idx"
  by (induction idx) simp_all

lemma concat_triples_nth:
  "\<forall>j. length (g j) = 3 \<Longrightarrow> i < length idx \<Longrightarrow> k < 3 \<Longrightarrow>
   concat (map g idx) ! (3 * i + k) = g (idx ! i) ! k"
proof (induction idx arbitrary: i)
  case Nil
  then show ?case by simp
next
  case (Cons a idx)
  show ?case
  proof (cases i)
    case 0
    with Cons.prems show ?thesis by (simp add: nth_append)
  next
    case (Suc i')
    with Cons.prems have i': "i' < length idx" by simp
    have "3 * i + k = length (g a) + (3 * i' + k)" using Suc Cons.prems(1) by simp
    then have "concat (map g (a # idx)) ! (3 * i + k) = concat (map g idx) ! (3 * i' + k)"
      by (simp only: list.map concat.simps nth_append_length_plus)
    with Cons.IH[OF Cons.prems(1) i' Cons.prems(3)] Suc show ?thesis by simp
  qed
qed

subsection \<open>Runs that end at or before the first tenth frame\<close>

lemma zero_count_any_window:
  assumes "fc s = 0" "length fs = 10"
  shows "raised (loop model clock 0 (map Some fs @ rest) s) \<noteq> None
     \<and> taken (reached (loop model clock 0 (map Some fs @ rest) s)) = taken s @ fs
     \<and> written (reached (loop model clock 0 (map Some fs @ rest) s))
         = written s @ map (annotate model) (butlast fs)
     \<and> stdout (reached (loop model clock 0 (map Some fs @ rest) s)) = stdout s"
  unfolding loop_window[OF assms] by (simp split: sum.splits)

lemma zero_count_call:
  assumes "isOpened (videos (input_file self))"
    and "frame_count (videos (input_file self)) = 0"
    and "feed (videos (input_file self)) = map Some fs @ rest"
    and "length fs = 10"
  shows "raised (call videos model clock self) \<noteq> None"
    and "frames_in (reached (call videos model clock self)) = fs"
    and "frames_out (reached (call videos model clock self)) = map (annotate model) (butlast fs)"
    and "console (reached (call videos model clock self)) = []"
    and "\<forall>k<10. 1 / 2000 < elapsed clock (2 * k) \<Longrightarrow>
         raised (call videos model clock self) = Some ZeroDivisionError"
    and "\<forall>k<10. 0 \<le> elapsed clock (2 * k) \<Longrightarrow> i < 10 \<Longrightarrow> elapsed clock (2 * i) < 1 / 2000 \<Longrightarrow>
         raised (call videos model clock self) = Some OverflowError"
proof -
  note c = call_opened(1,2,3,4)[of videos self, OF assms(1)]
  from zero_count_any_window[OF session0_fields(1) assms(4), of model clock rest]
  show "raised (call videos model clock self) \<noteq> None"
    and "frames_in (reached (call videos model clock self)) = fs"
    and "frames_out (reached (call videos model clock self)) = map (annotate model) (butlast fs)"
    and "console (reached (call videos model clock self)) = []"
    unfolding c assms(2,3) by (simp_all add: session0_fields)
next
  assume "\<forall>k<10. 1 / 2000 < elapsed clock (2 * k)"
  then have h: "\<forall>k<10. 1 / 2000 < elapsed clock (ticks session0 + 2 * k)"
    by (simp add: session0_fields)
  from zero_count_window[OF session0_fields(1,2) assms(4) h, of model rest]
  have "raised (loop model clock 0 (map Some fs @ rest) session0) = Some ZeroDivisionError"
    by (metis raised.simps(2))
  then show "raised (call videos model clock self) = Some ZeroDivisionError"
    unfolding call_opened(1)[of videos self, OF assms(1)] assms(2,3) .
next
  assume a: "\<forall>k<10. 0 \<le> elapsed clock (2 * k)" "i < 10" "elapsed clock (2 * i) < 1 / 2000"
  then have h: "\<forall>k<10. 0 \<le> elapsed clock (ticks session0 + 2 * k)"
    and h': "elapsed clock (ticks session0 + 2 * i) < 1 / 2000"
    by (simp_all add: session0_fields)
  from overflow_window[OF session0_fields(1,2) assms(4) h a(2) h', of model 0 rest]
  have "raised (loop model clock 0 (map Some fs @ rest) session0) = Some OverflowError"
    by (metis raised.simps(2))
  then show "raised (call videos model clock self) = Some OverflowError"
    unfolding call_opened(1)[of videos self, OF assms(1)] assms(2,3) .
qed

lemma short_call:
  assumes "isOpened (videos (input_file self))"
    and "feed (videos (input_file self)) = map Some fs"
    and "length fs < 10"
  shows "raised (call videos model clock self) = None"
    and "frames_in (reached (call videos model clock self)) = fs"
    and "frames_out (reached (call videos model clock self)) = map (annotate model) fs"
    and "console (reached (call videos model clock self)) = []"
proof -
  let ?tfc = "frame_count (videos (input_file self))"
  have "fc session0 + int (length fs) < 10" using assms(3) by (simp add: session0_fields)
  from loop_inner[OF this, of model clock ?tfc "[]"]
  have l: "loop model clock ?tfc (map Some fs) session0 =
     Returned (session0\<lparr>fc := fc session0 + int (length fs), ticks := ticks session0 + 2 * length fs,
          taken := taken session0 @ fs,
          fps := accumulated clock (ticks session0) (length fs) (fps session0),
          written := written session0 @ map (annotate model) fs,
          fc := fc session0 + int (length fs) + 1, ticks := ticks session0 + 2 * length fs + 1\<rparr>)"
    by simp
  show "raised (call videos model clock self) = None"
    and "frames_in (reached (call videos model clock self)) = fs"
    and "frames_out (reached (call videos model clock self)) = map (annotate model) fs"
    and "console (reached (call videos model clock self)) = []"
    unfolding call_opened(1,2,3,4)[of videos self, OF assms(1)] assms(2) l
    by (simp_all add: session0_fields)
qed

section \<open>The claims\<close>

text \<open>
  C1 (defect). The claim: after drawing, every frame carries the total-targets counter at
  position (30, 30); a ten-frame video without detections gives ten frames annotated only
  with "Total Targets: 0" and one progress line. The counter is drawn inside the loop over
  the detections, so a frame without detections gets no annotation at all: the ten frames
  are written as they were read. The one progress line is printed.
\<close>

theorem ten_frames_without_targets:
  "call (\<lambda>p. example_video 10 10) no_targets steady_clock example_detector =
     Returned \<lparr>source = Some (ascii ''in.mp4''),
       sink = Some (ascii ''out.avi'', ''MJPG'', 20, 640, 480),
       frames_in = replicate 10 example_frame,
       frames_out = replicate 10 example_frame,
       console = [''Frames Per Second : 10 || Percentage Parsed : 100''],
       player_released = True, out_released = False\<rparr>
   \<and> drawn example_frame = []"
  by (simp add: ten_frame_call) (simp add: example_frame_def)

text \<open>
  C2 (amended). The claim: both streams are released at loop exit, also when the loop is
  left by an error. The method has no \<open>try\<close> or \<open>finally\<close>: a run that raises releases
  nothing, as the run on a video whose reported frame count is 0 shows.
\<close>

theorem nothing_released_after_error:
  "raised (call (\<lambda>p. example_video 10 0) no_targets steady_clock example_detector)
     = Some ZeroDivisionError
   \<and> sink (reached (call (\<lambda>p. example_video 10 0) no_targets steady_clock example_detector))
     = Some (ascii ''out.avi'', ''MJPG'', 20, 640, 480)
   \<and> \<not> player_released
         (reached (call (\<lambda>p. example_video 10 0) no_targets steady_clock example_detector))
   \<and> \<not> out_released
         (reached (call (\<lambda>p. example_video 10 0) no_targets steady_clock example_detector))"
  by (simp add: zero_count_run)

text \<open>
  C2 as amended: the input stream is released at loop exit exactly when the run leaves the
  loop by a read without a frame; a run that raises releases neither stream.
\<close>

theorem input_released_iff_returned:
  "player_released (reached (call videos model clock self))
     = (raised (call videos model clock self) = None)
   \<and> (raised (call videos model clock self) \<noteq> None \<longrightarrow>
        \<not> player_released (reached (call videos model clock self))
        \<and> \<not> out_released (reached (call videos model clock self)))"
proof (cases "isOpened (videos (input_file self))")
  case True
  from call_opened(1,5,6)[of videos self, OF True] show ?thesis by simp
next
  case False
  from call_not_opened[of videos self, OF False] show ?thesis
    by (simp add: nothing_done_def)
qed

theorem input_released_iff_returned_witness:
  "raised (call (\<lambda>p. example_video 10 10) no_targets frozen_clock example_detector)
     = Some OverflowError
   \<and> \<not> player_released
         (reached (call (\<lambda>p. example_video 10 10) no_targets frozen_clock example_detector))
   \<and> \<not> out_released
         (reached (call (\<lambda>p. example_video 10 10) no_targets frozen_clock example_detector))
   \<and> raised (call (\<lambda>p. example_video 3 3) no_targets steady_clock example_detector) = None
   \<and> player_released
         (reached (call (\<lambda>p. example_video 3 3) no_targets steady_clock example_detector))"
proof -
  have r: "raised (call (\<lambda>p. example_video 10 10) no_targets frozen_clock example_detector)
     = Some OverflowError"
    by (simp add: frozen_run)
  have n: "raised (call (\<lambda>p. example_video 3 3) no_targets steady_clock example_detector) = None"
    by (simp add: three_frame_call)
  from input_released_iff_returned[of "\<lambda>p. example_video 10 10" no_targets frozen_clock example_detector]
    input_released_iff_returned[of "\<lambda>p. example_video 3 3" no_targets steady_clock example_detector]
    r n
  show ?thesis by simp
qed

text \<open>
  C3 (defect). The claim: every ten frames the loop reports the average FPS of exactly
  that window and resets both windowed counters, so that a window's average does not depend
  on the windows before it. The cell resets \<open>fc\<close> but leaves the reported average in
  \<open>fps\<close>: on twenty frames that each take a tenth of a second (10 frames per second
  throughout) the second line reports 11.
\<close>

theorem second_window_carries_average:
  "console (reached (call (\<lambda>p. example_video 20 20) no_targets steady_clock example_detector)) =
     [''Frames Per Second : 10 || Percentage Parsed : 50'',
      ''Frames Per Second : 11 || Percentage Parsed : 100'']"
  by (simp add: call_opened(4) example_opened feed_example twenty_frame_loop)

text \<open>
  C4 (defect). The claim: the run reads from the path of the first command-line argument
  and writes to the path of the second. The cell reads both arguments and then builds
  the detector from two literal paths: started as \<open>detect.py in.mp4 out.avi\<close> where
  \<open>in.mp4\<close> is a ten-frame video and nothing else exists, the run fails to open its input.
\<close>

theorem arguments_not_used:
  "driver (\<lambda>p. if p = ascii ''in.mp4'' then example_video 10 10 else missing_video)
      no_targets steady_clock [ascii ''detect.py'', ascii ''in.mp4'', ascii ''out.avi'']
   = Raised AssertionError (nothing_done\<lparr>source := Some literal_input\<rparr>)"
proof -
  have "\<not> isOpened ((\<lambda>p. if p = ascii ''in.mp4'' then example_video 10 10 else missing_video)
           (input_file (ObjectDetection literal_input literal_output)))"
    using literal_input_not_argument by (simp add: ObjectDetection_def missing_video_def)
  from call_not_opened[of "\<lambda>p. if p = ascii ''in.mp4'' then example_video 10 10 else missing_video"
      "ObjectDetection literal_input literal_output", OF this]
  show ?thesis
    by (simp add: driver_ignores_argv ObjectDetection_def)
qed

text \<open>
  C5. When the input path cannot be opened, the run stops at the assertion after
  \<open>get_video_from_file\<close>: it raises, no output stream has been created, nothing has been
  read or written.
\<close>

theorem unopened_input_aborts_before_output:
  assumes "\<not> isOpened (videos (input_file self))"
  shows "raised (call videos model clock self) = Some AssertionError
       \<and> sink (reached (call videos model clock self)) = None
       \<and> frames_in (reached (call videos model clock self)) = []
       \<and> frames_out (reached (call videos model clock self)) = []
       \<and> console (reached (call videos model clock self)) = []"
  by (simp add: call_not_opened[of videos self, OF assms] nothing_done_def)

theorem unopened_input_aborts_before_output_witness:
  "\<not> isOpened ((\<lambda>p. missing_video) (input_file example_detector))
   \<and> raised (call (\<lambda>p. missing_video) one_target steady_clock example_detector) = Some AssertionError
   \<and> sink (reached (call (\<lambda>p. missing_video) one_target steady_clock example_detector)) = None"
proof -
  have h: "\<not> isOpened ((\<lambda>p. missing_video) (input_file example_detector))"
    by (simp add: missing_video_def)
  from unopened_input_aborts_before_output[OF h, of one_target steady_clock] h
  show ?thesis by simp
qed

text \<open>
  C6. In every run the number of progress lines is the number of frames written so far,
  divided by ten and rounded down; a run that returns has printed one line for every ten
  frames it read, and a run on fewer than ten readable frames prints none.
\<close>

theorem progress_line_once_per_ten_frames:
  "length (console (reached (call videos model clock self)))
     = length (frames_out (reached (call videos model clock self))) div 10
   \<and> (raised (call videos model clock self) = None \<longrightarrow>
        length (console (reached (call videos model clock self)))
          = length (readable (feed (videos (input_file self)))) div 10)
   \<and> (length (readable (feed (videos (input_file self)))) < 10 \<longrightarrow>
        console (reached (call videos model clock self)) = [])"
proof (cases "isOpened (videos (input_file self))")
  case False
  from call_not_opened[of videos self, OF False] show ?thesis
    by (simp add: nothing_done_def)
next
  case True
  let ?fd = "feed (videos (input_file self))"
  let ?l = "loop model clock (frame_count (videos (input_file self))) ?fd session0"
  have cnt: "length (stdout (reached ?l)) = length (written (reached ?l)) div 10"
    by (rule loop_counts) (simp_all add: session0_fields)
  from loop_frames[of model clock "frame_count (videos (input_file self))" ?fd session0]
  obtain tk out where
    t: "taken (reached ?l) = tk" and w: "written (reached ?l) = out"
    and pre: "tk = take (length tk) (readable ?fd)"
    and le: "length out \<le> length tk"
    and ret: "\<forall>s'. ?l = Returned s' \<longrightarrow> tk = readable ?fd \<and> length out = length tk"
    by (auto simp: session0_fields)
  have bound: "length out \<le> length (readable ?fd)"
  proof -
    have "length tk \<le> length (readable ?fd)" by (subst pre) simp
    with le show ?thesis by simp
  qed
  have a: "raised ?l = None \<longrightarrow> length (stdout (reached ?l)) = length (readable ?fd) div 10"
  proof
    assume "raised ?l = None"
    then have "?l = Returned (reached ?l)" by (simp add: raised_None)
    with ret have "length out = length (readable ?fd)" by metis
    with cnt w show "length (stdout (reached ?l)) = length (readable ?fd) div 10" by simp
  qed
  have b: "length (readable ?fd) < 10 \<longrightarrow> stdout (reached ?l) = []"
    using cnt w bound by auto
  from cnt a b show ?thesis
    unfolding call_opened(1,3,4)[of videos self, OF True] by blast
qed

theorem progress_line_once_per_ten_frames_witness:
  "raised (call (\<lambda>p. example_video 10 10) no_targets steady_clock example_detector) = None
   \<and> length (readable (feed ((\<lambda>p. example_video 10 10) (input_file example_detector)))) = 10
   \<and> length (console (reached
        (call (\<lambda>p. example_video 10 10) no_targets steady_clock example_detector))) = 1
   \<and> length (readable (feed ((\<lambda>p. example_video 3 3) (input_file example_detector)))) < 10
   \<and> console (reached
        (call (\<lambda>p. example_video 3 3) no_targets steady_clock example_detector)) = []"
proof -
  have r: "raised (call (\<lambda>p. example_video 10 10) no_targets steady_clock example_detector) = None"
    by (simp add: ten_frame_call)
  have l10: "length (readable (feed ((\<lambda>p. example_video 10 10) (input_file example_detector)))) = 10"
    by (simp add: readable_def feed_example)
  have l3: "length (readable (feed ((\<lambda>p. example_video 3 3) (input_file example_detector)))) < 10"
    by (simp add: readable_def feed_example)
  from progress_line_once_per_ten_frames[of "\<lambda>p. example_video 10 10" no_targets steady_clock example_detector]
    progress_line_once_per_ten_frames[of "\<lambda>p. example_video 3 3" no_targets steady_clock example_detector]
    r l10 l3
  show ?thesis by simp
qed

text \<open>
  C7 (amended). The claim: in every run every successfully read frame is written exactly
  once. A run that raises has read the frame in work and not written it: on ten frames
  and a clock that stands still the run raises at the tenth frame, with ten frames read
  and nine written.
\<close>

theorem read_frame_not_written:
  "raised (call (\<lambda>p. example_video 10 10) no_targets frozen_clock example_detector)
     = Some OverflowError
   \<and> length (frames_in (reached
        (call (\<lambda>p. example_video 10 10) no_targets frozen_clock example_detector))) = 10
   \<and> length (frames_out (reached
        (call (\<lambda>p. example_video 10 10) no_targets frozen_clock example_detector))) = 9"
  by (simp add: frozen_run)

text \<open>
  C7 as amended: in every run the frames written are, in order and one for one, the
  annotations of the first frames read, so that no more frames are written than read and
  no frame is written twice. In a run that returns every successfully read frame is
  written exactly once: the frames read are all the frames up to the first read without
  a frame, and as many are written. In a run that raises after the input was opened
  exactly one frame, the one in work, is read and not written. A read without a frame,
  and the end of the stream, make the loop return and raise nothing.
\<close>

theorem written_frames_follow_read_frames:
  "length (frames_out (reached (call videos model clock self)))
     \<le> length (frames_in (reached (call videos model clock self)))
   \<and> list_all2 (annotates model)
        (take (length (frames_out (reached (call videos model clock self))))
           (frames_in (reached (call videos model clock self))))
        (frames_out (reached (call videos model clock self)))
   \<and> (raised (call videos model clock self) = None \<longrightarrow>
        frames_in (reached (call videos model clock self))
          = readable (feed (videos (input_file self)))
        \<and> length (frames_out (reached (call videos model clock self)))
          = length (frames_in (reached (call videos model clock self)))
        \<and> list_all2 (annotates model)
             (frames_in (reached (call videos model clock self)))
             (frames_out (reached (call videos model clock self))))
   \<and> (raised (call videos model clock self) \<noteq> None \<and> isOpened (videos (input_file self)) \<longrightarrow>
        length (frames_in (reached (call videos model clock self)))
          = Suc (length (frames_out (reached (call videos model clock self)))))
   \<and> loop model clock tfc (None # rest) s = Returned (s\<lparr>fc := fc s + 1, ticks := ticks s + 1\<rparr>)
   \<and> loop model clock tfc [] s = Returned (s\<lparr>fc := fc s + 1, ticks := ticks s + 1\<rparr>)"
proof (cases "isOpened (videos (input_file self))")
  case False
  from call_not_opened[of videos self model clock, OF False] False show ?thesis
    by (simp add: nothing_done_def)
next
  case True
  let ?fd = "feed (videos (input_file self))"
  let ?l = "loop model clock (frame_count (videos (input_file self))) ?fd session0"
  from loop_frames[of model clock "frame_count (videos (input_file self))" ?fd session0]
  obtain tk out where
    t: "taken (reached ?l) = tk" and w: "written (reached ?l) = out"
    and le: "length out \<le> length tk"
    and ann: "list_all2 (annotates model) (take (length out) tk) out"
    and ret: "\<forall>s'. ?l = Returned s' \<longrightarrow> tk = readable ?fd \<and> length out = length tk"
    and rai: "\<forall>e s'. ?l = Raised e s' \<longrightarrow> length tk = Suc (length out)"
    by (auto simp: session0_fields)
  have a: "raised ?l = None \<longrightarrow>
     tk = readable ?fd \<and> length out = length tk \<and> list_all2 (annotates model) tk out"
  proof
    assume "raised ?l = None"
    then have "?l = Returned (reached ?l)" by (simp add: raised_None)
    with ret have "tk = readable ?fd \<and> length out = length tk" by metis
    with ann show "tk = readable ?fd \<and> length out = length tk \<and> list_all2 (annotates model) tk out"
      by simp
  qed
  have b: "raised ?l \<noteq> None \<longrightarrow> length tk = Suc (length out)"
  proof
    assume "raised ?l \<noteq> None"
    then obtain e s' where "?l = Raised e s'" by (cases ?l) auto
    with rai show "length tk = Suc (length out)" by blast
  qed
  from le ann a b True show ?thesis
    unfolding call_opened(1,2,3)[of videos self, OF True] t w by auto
qed

theorem written_frames_follow_read_frames_witness:
  "raised (call (\<lambda>p. example_video 3 3) one_target steady_clock example_detector) = None
   \<and> frames_in (reached (call (\<lambda>p. example_video 3 3) one_target steady_clock example_detector))
       = replicate 3 example_frame
   \<and> length (frames_out (reached
        (call (\<lambda>p. example_video 3 3) one_target steady_clock example_detector))) = 3
   \<and> list_all2 (annotates one_target)
        (frames_in (reached (call (\<lambda>p. example_video 3 3) one_target steady_clock example_detector)))
        (frames_out (reached (call (\<lambda>p. example_video 3 3) one_target steady_clock example_detector)))
   \<and> raised (call (\<lambda>p. example_video 12 0) one_target steady_clock example_detector)
       = Some ZeroDivisionError
   \<and> isOpened ((\<lambda>p. example_video 12 0) (input_file example_detector))
   \<and> length (frames_in (reached
        (call (\<lambda>p. example_video 12 0) one_target steady_clock example_detector))) = 10
   \<and> length (frames_out (reached
        (call (\<lambda>p. example_video 12 0) one_target steady_clock example_detector))) = 9"
proof -
  have f3: "feed ((\<lambda>p. example_video 3 3) (input_file example_detector))
          = map Some (replicate 3 example_frame)"
    by (simp add: feed_example)
  have o3: "isOpened ((\<lambda>p. example_video 3 3) (input_file example_detector))"
    by (simp add: example_opened)
  have l3: "length (replicate 3 example_frame) < 10" by simp
  note a = short_call(1,2)[where videos = "\<lambda>p. example_video 3 3" and self = example_detector
      and fs = "replicate 3 example_frame" and model = one_target and clock = steady_clock,
      OF o3 f3 l3]
  have o12: "isOpened ((\<lambda>p. example_video 12 0) (input_file example_detector))"
    and c12: "frame_count ((\<lambda>p. example_video 12 0) (input_file example_detector)) = 0"
    by (simp_all add: example_opened)
  have f12: "feed ((\<lambda>p. example_video 12 0) (input_file example_detector))
       = map Some (replicate 10 example_frame) @ replicate 2 (Some example_frame)"
    by (simp add: feed_example flip: replicate_add)
  have l10: "length (replicate 10 example_frame) = 10" by simp
  have ms: "\<forall>k<10. 1 / 2000 < elapsed steady_clock (2 * k)"
    by (simp add: elapsed_steady)
  note b = zero_count_call(2,5)[where videos = "\<lambda>p. example_video 12 0"
      and self = example_detector and fs = "replicate 10 example_frame"
      and rest = "replicate 2 (Some example_frame)" and model = one_target
      and clock = steady_clock, OF o12 c12 f12 l10]
  let ?A = "reached (call (\<lambda>p. example_video 3 3) one_target steady_clock example_detector)"
  let ?B = "reached (call (\<lambda>p. example_video 12 0) one_target steady_clock example_detector)"
  from written_frames_follow_read_frames[of "\<lambda>p. example_video 3 3" one_target steady_clock
      example_detector] a(1)
  have "length (frames_out ?A) = length (frames_in ?A)
      \<and> list_all2 (annotates one_target) (frames_in ?A) (frames_out ?A)"
    by blast
  then have ra: "length (frames_out ?A) = 3"
    "list_all2 (annotates one_target) (frames_in ?A) (frames_out ?A)"
    by (simp_all add: a(2))
  from written_frames_follow_read_frames[of "\<lambda>p. example_video 12 0" one_target steady_clock
      example_detector] b(2)[OF ms] o12
  have "length (frames_in ?B) = Suc (length (frames_out ?B))"
    by simp
  then have rb: "length (frames_in ?B) = 10" "length (frames_out ?B) = 9"
    by (simp_all add: b(1))
  from a ra b(2)[OF ms] o12 rb show ?thesis by (intro conjI)
qed

text \<open>
  C8. \<open>plot_boxes\<close> draws three marks for every detection, the rectangle first. For every
  detection of a frame whose normalized box lies in [0, 1], the two corners of the
  rectangle that \<open>plot_boxes\<close> draws for it, computed from the width and the height of
  that frame, lie within [0, width] \<times> [0, height] of the frame.
\<close>

theorem drawn_box_within_frame:
  assumes "plot_boxes (labels, cord) frame = Inr frame'"
    and "i < length labels"
    and "in_unit_box (cord ! i)"
  shows "length (drawn frame') = length (drawn frame) + 3 * length labels
       \<and> (\<exists>x1 y1 x2 y2.
            drawn frame' ! (length (drawn frame) + 3 * i) = Rectangle (x1, y1) (x2, y2) (0, 0, 255) 3
            \<and> inside frame (x1, y1) \<and> inside frame (x2, y2))"
proof -
  let ?g = "\<lambda>j. box_marks (length labels) (cols frame) (rows frame) (cord ! j)"
  from assms(1) have
    "plot_rows (length labels) (cols frame) (rows frame) cord [0..<length labels] frame = Inr frame'"
    by (simp add: plot_boxes_def Let_def)
  from plot_rows_drawn[OF this]
  have d: "drawn frame' = drawn frame @ concat (map ?g [0..<length labels])" .
  have three: "\<forall>j. length (?g j) = 3" by (simp add: box_marks_length)
  have len: "length (drawn frame') = length (drawn frame) + 3 * length labels"
    unfolding d using concat_triples_length[OF three, of "[0..<length labels]"] by simp
  have "drawn frame' ! (length (drawn frame) + 3 * i) = concat (map ?g [0..<length labels]) ! (3 * i + 0)"
    unfolding d by (simp add: nth_append)
  also have "\<dots> = ?g ([0..<length labels] ! i) ! 0"
    by (rule concat_triples_nth[OF three]) (simp_all add: assms(2))
  also have "\<dots> = ?g i ! 0" using assms(2) by simp
  finally have n: "drawn frame' ! (length (drawn frame) + 3 * i) = ?g i ! 0" .
  from box_marks_rectangle[OF assms(3), of "length labels" frame] len show ?thesis
    unfolding n by simp
qed

theorem drawn_box_within_frame_witness:
  "plot_boxes ([0, 0], [(- 1 / 10, 0, 3 / 2, 1, 1 / 2), (1 / 10, 1 / 10, 1 / 2, 1, 9 / 10)]) example_frame =
     Inr (example_frame\<lparr>drawn :=
        [Rectangle (- 64, 0) (960, 480) (0, 0, 255) 3,
         PutText ''50'' (- 64, 0) (6 / 10) (0, 255, 0) 1,
         PutText ''Total Targets: 2'' (30, 30) 1 (0, 255, 0) 2,
         Rectangle (64, 48) (320, 480) (0, 0, 255) 3,
         PutText ''90'' (64, 48) (6 / 10) (0, 255, 0) 1,
         PutText ''Total Targets: 2'' (30, 30) 1 (0, 255, 0) 2]\<rparr>)
   \<and> (1::nat) < length [0::rat, 0]
   \<and> in_unit_box ([(- 1 / 10, 0, 3 / 2, 1, 1 / 2), (1 / 10, 1 / 10, 1 / 2, 1, 9 / 10)] ! 1)
   \<and> inside example_frame (64, 48) \<and> inside example_frame (320, 480)"
proof -
  let ?F = "example_frame\<lparr>drawn :=
        [Rectangle (- 64, 0) (960, 480) (0, 0, 255) 3,
         PutText ''50'' (- 64, 0) (6 / 10) (0, 255, 0) 1,
         PutText ''Total Targets: 2'' (30, 30) 1 (0, 255, 0) 2,
         Rectangle (64, 48) (320, 480) (0, 0, 255) 3,
         PutText ''90'' (64, 48) (6 / 10) (0, 255, 0) 1,
         PutText ''Total Targets: 2'' (30, 30) 1 (0, 255, 0) 2]\<rparr>"
  have p: "plot_boxes ([0, 0], [(- 1 / 10, 0, 3 / 2, 1, 1 / 2), (1 / 10, 1 / 10, 1 / 2, 1, 9 / 10)])
             example_frame = Inr ?F"
    by (simp add: plot_boxes_def plot_one_def denormalize_def trunc_def example_frame_def
        str_int_def digits.simps digit_char_def Let_def upt_rec)
  have i: "(1::nat) < length [0::rat, 0]" by simp
  have u: "in_unit_box ([(- 1 / 10, 0, 3 / 2, 1, 1 / 2), (1 / 10, 1 / 10, 1 / 2, 1, 9 / 10)] ! 1)"
    by (simp add: in_unit_box_def)
  from drawn_box_within_frame[OF p i u] obtain x1 y1 x2 y2 where
    r: "drawn ?F ! (length (drawn example_frame) + 3 * 1) = Rectangle (x1, y1) (x2, y2) (0, 0, 255) 3"
    and ins: "inside example_frame (x1, y1)" "inside example_frame (x2, y2)"
    by blast
  have "drawn ?F ! (length (drawn example_frame) + 3 * 1)
      = Rectangle (64, 48) (320, 480) (0, 0, 255) 3"
    by (simp add: example_frame_def)
  with r have "x1 = 64" "y1 = 48" "x2 = 320" "y2 = 480" by simp_all
  with ins have "inside example_frame (64, 48) \<and> inside example_frame (320, 480)"
    by simp
  with p i u show ?thesis by simp
qed

text \<open>
  C9 (amended). The claim: a frame processed in under 0.0005 seconds makes the run raise a
  division-by-zero error. The divisor is a NumPy float, and NumPy's division by zero gives
  infinity: a one-frame video on a clock that stands still is read, written and the run
  returns.
\<close>

theorem fast_frame_raises_nothing:
  "elapsed frozen_clock 0 < 1 / 2000
   \<and> call (\<lambda>p. example_video 1 1) no_targets frozen_clock example_detector =
     Returned \<lparr>source = Some (ascii ''in.mp4''),
       sink = Some (ascii ''out.avi'', ''MJPG'', 20, 640, 480),
       frames_in = [example_frame],
       frames_out = [example_frame],
       console = [],
       player_released = True, out_released = False\<rparr>"
  using one_frame_frozen_run by (simp add: elapsed_frozen)

text \<open>
  C9 as amended: the division is not guarded, and for a frame processed in under 0.0005
  seconds (on a clock that does not run backwards) its result is infinity and nothing is
  raised at that frame; the window's first nine frames are written, and at the tenth
  frame of the window the conversion of the accumulator to \<open>int\<close> raises
  \<open>OverflowError\<close>, before any progress line of that window is printed.
\<close>

theorem fast_frame_overflows_at_window_end:
  assumes "fc s = 0" "fps s = Fin a" "length fs = 10"
    and "\<forall>k<10. 0 \<le> elapsed clock (ticks s + 2 * k)"
    and "i < 10" "elapsed clock (ticks s + 2 * i) < 1 / 2000"
  shows "np_recip (np_round (elapsed clock (ticks s + 2 * i)) 3) = PInf
       \<and> raised (loop model clock tfc (map Some fs @ rest) s) = Some OverflowError
       \<and> written (reached (loop model clock tfc (map Some fs @ rest) s))
           = written s @ map (annotate model) (butlast fs)
       \<and> stdout (reached (loop model clock tfc (map Some fs @ rest) s)) = stdout s"
proof -
  from assms(4,5) have "0 \<le> elapsed clock (ticks s + 2 * i)" by blast
  from rate_fast[OF this assms(6)]
  have inf: "np_recip (np_round (elapsed clock (ticks s + 2 * i)) 3) = PInf" .
  from overflow_window[OF assms, of model tfc rest]
  have "raised (loop model clock tfc (map Some fs @ rest) s) = Some OverflowError"
    and "written (reached (loop model clock tfc (map Some fs @ rest) s))
           = written s @ map (annotate model) (butlast fs)"
    and "stdout (reached (loop model clock tfc (map Some fs @ rest) s)) = stdout s"
    by (metis raised.simps(2))+
  with inf show ?thesis by simp
qed

theorem fast_frame_overflows_at_window_end_witness:
  "fc session0 = 0 \<and> fps session0 = Fin 0 \<and> length (replicate 10 example_frame) = 10
   \<and> list_all (\<lambda>k. 0 \<le> elapsed frozen_clock (ticks session0 + 2 * k)) [0..<10]
   \<and> elapsed frozen_clock (ticks session0 + 2 * 0) < 1 / 2000
   \<and> raised (loop one_target frozen_clock 10 (map Some (replicate 10 example_frame) @ []) session0)
       = Some OverflowError
   \<and> length (written (reached
        (loop one_target frozen_clock 10 (map Some (replicate 10 example_frame) @ []) session0))) = 9"
proof -
  have h1: "fc session0 = 0" and h2: "fps session0 = Fin 0"
    by (simp_all add: session0_fields)
  have h3: "length (replicate 10 example_frame) = 10" by simp
  have h4: "\<forall>k<10. 0 \<le> elapsed frozen_clock (ticks session0 + 2 * k)"
    by (simp add: elapsed_frozen)
  have h5: "(0::nat) < 10" by simp
  have h6: "elapsed frozen_clock (ticks session0 + 2 * 0) < 1 / 2000"
    by (simp add: elapsed_frozen)
  have l: "list_all (\<lambda>k. 0 \<le> elapsed frozen_clock (ticks session0 + 2 * k)) [0..<10]"
    by (simp add: elapsed_frozen list_all_iff)
  from fast_frame_overflows_at_window_end[OF h1 h2 h3 h4 h5 h6, of one_target 10 "[]"]
    h1 h2 l h6
  show ?thesis by (simp add: session0_fields)
qed

text \<open>
  C10 (amended). The claim: with a reported frame count of 0 the run raises a
  division-by-zero error at the first ten-frame boundary. The conversion of the FPS
  accumulator on the line before can raise first: on ten frames, a reported count of 0
  and a clock that stands still the run raises \<open>OverflowError\<close>.
\<close>

theorem zero_frame_count_overflows_first:
  "frame_count ((\<lambda>p. example_video 10 0) (input_file example_detector)) = 0
   \<and> raised (call (\<lambda>p. example_video 10 0) no_targets frozen_clock example_detector)
       = Some OverflowError"
proof -
  have o: "isOpened ((\<lambda>p. example_video 10 0) (input_file example_detector))"
    and c: "frame_count ((\<lambda>p. example_video 10 0) (input_file example_detector)) = 0"
    by (simp_all add: example_opened)
  have f: "feed ((\<lambda>p. example_video 10 0) (input_file example_detector))
       = map Some (replicate 10 example_frame) @ []"
    by (simp add: feed_example)
  have l: "length (replicate 10 example_frame) = 10" by simp
  have e: "\<forall>k<10. 0 \<le> elapsed frozen_clock (2 * k)" "(0::nat) < 10"
    "elapsed frozen_clock (2 * 0) < 1 / 2000"
    by (simp_all add: elapsed_frozen)
  from zero_count_call(6)[where videos = "\<lambda>p. example_video 10 0" and self = example_detector
      and fs = "replicate 10 example_frame" and rest = "[]" and clock = frozen_clock
      and i = 0 and model = no_targets, OF o c f l e] c
  show ?thesis by simp
qed

text \<open>
  C10 as amended: the percentage is computed by dividing by the frame count the stream
  reports, without a guard. When that count is 0 and the stream gives at least ten
  frames, the run raises at its tenth frame, the first ten-frame boundary: nine frames are
  written and no progress line is printed. The error is \<open>ZeroDivisionError\<close> when each of
  the ten frames took at least 0.001 seconds; it is the \<open>OverflowError\<close> of the FPS
  conversion on the line before when one of them took under 0.0005 seconds (on a clock
  that does not run backwards).
\<close>

theorem zero_frame_count_raises_at_first_boundary:
  assumes "isOpened (videos (input_file self))"
    and "frame_count (videos (input_file self)) = 0"
    and "feed (videos (input_file self)) = map Some fs @ rest"
    and "length fs = 10"
  shows "raised (call videos model clock self) \<noteq> None
       \<and> frames_in (reached (call videos model clock self)) = fs
       \<and> frames_out (reached (call videos model clock self)) = map (annotate model) (butlast fs)
       \<and> console (reached (call videos model clock self)) = []
       \<and> ((\<forall>k<10. 1 / 1000 \<le> elapsed clock (2 * k)) \<longrightarrow>
            raised (call videos model clock self) = Some ZeroDivisionError)
       \<and> ((\<forall>k<10. 0 \<le> elapsed clock (2 * k)) \<and> i < 10 \<and> elapsed clock (2 * i) < 1 / 2000 \<longrightarrow>
            raised (call videos model clock self) = Some OverflowError)"
proof -
  note z = zero_count_call[where videos = videos and self = self and fs = fs and rest = rest
      and model = model and clock = clock, OF assms]
  have ms: "(\<forall>k<10. 1 / 1000 \<le> elapsed clock (2 * k)) \<longrightarrow>
            raised (call videos model clock self) = Some ZeroDivisionError"
  proof
    assume a: "\<forall>k<10. 1 / 1000 \<le> elapsed clock (2 * k)"
    have "\<forall>k<10. 1 / 2000 < elapsed clock (2 * k)"
    proof (intro allI impI)
      fix k :: nat assume "k < 10"
      with a have "1 / 1000 \<le> elapsed clock (2 * k)" by blast
      then show "1 / 2000 < elapsed clock (2 * k)" by simp
    qed
    then show "raised (call videos model clock self) = Some ZeroDivisionError" by (rule z(5))
  qed
  have ov: "(\<forall>k<10. 0 \<le> elapsed clock (2 * k)) \<and> i < 10 \<and> elapsed clock (2 * i) < 1 / 2000 \<longrightarrow>
            raised (call videos model clock self) = Some OverflowError"
    using z(6) by blast
  from z(1,2,3,4) ms ov show ?thesis by blast
qed

theorem zero_frame_count_raises_at_first_boundary_witness:
  "isOpened ((\<lambda>p. example_video 12 0) (input_file example_detector))
   \<and> frame_count ((\<lambda>p. example_video 12 0) (input_file example_detector)) = 0
   \<and> feed ((\<lambda>p. example_video 12 0) (input_file example_detector))
       = map Some (replicate 10 example_frame) @ replicate 2 (Some example_frame)
   \<and> length (replicate 10 example_frame) = 10
   \<and> list_all (\<lambda>k. 1 / 1000 \<le> elapsed steady_clock (2 * k)) [0..<10]
   \<and> raised (call (\<lambda>p. example_video 12 0) one_target steady_clock example_detector)
       = Some ZeroDivisionError
   \<and> length (frames_out (reached
        (call (\<lambda>p. example_video 12 0) one_target steady_clock example_detector))) = 9
   \<and> console (reached
        (call (\<lambda>p. example_video 12 0) one_target steady_clock example_detector)) = []
   \<and> list_all (\<lambda>k. 0 \<le> elapsed frozen_clock (2 * k)) [0..<10]
   \<and> elapsed frozen_clock (2 * 3) < 1 / 2000
   \<and> raised (call (\<lambda>p. example_video 12 0) one_target frozen_clock example_detector)
       = Some OverflowError"
proof -
  have h1: "isOpened ((\<lambda>p. example_video 12 0) (input_file example_detector))"
    and h2: "frame_count ((\<lambda>p. example_video 12 0) (input_file example_detector)) = 0"
    by (simp_all add: example_opened)
  have h3: "feed ((\<lambda>p. example_video 12 0) (input_file example_detector))
       = map Some (replicate 10 example_frame) @ replicate 2 (Some example_frame)"
    by (simp add: feed_example flip: replicate_add)
  have h4: "length (replicate 10 example_frame) = 10" by simp
  have s1: "\<forall>k<10. 1 / 1000 \<le> elapsed steady_clock (2 * k)"
    by (simp add: elapsed_steady)
  have s2: "list_all (\<lambda>k. 1 / 1000 \<le> elapsed steady_clock (2 * k)) [0..<10]"
    by (simp add: elapsed_steady list_all_iff)
  have f1: "\<forall>k<10. 0 \<le> elapsed frozen_clock (2 * k)"
    by (simp add: elapsed_frozen)
  have f2: "list_all (\<lambda>k. 0 \<le> elapsed frozen_clock (2 * k)) [0..<10]"
    by (simp add: elapsed_frozen list_all_iff)
  have f3: "(3::nat) < 10" by simp
  have f4: "elapsed frozen_clock (2 * 3) < 1 / 2000"
    by (simp add: elapsed_frozen)
  from zero_frame_count_raises_at_first_boundary[of "\<lambda>p. example_video 12 0" example_detector
      "replicate 10 example_frame" "replicate 2 (Some example_frame)" one_target steady_clock 0,
      OF h1 h2 h3 h4]
    zero_frame_count_raises_at_first_boundary[of "\<lambda>p. example_video 12 0" example_detector
      "replicate 10 example_frame" "replicate 2 (Some example_frame)" one_target frozen_clock 3,
      OF h1 h2 h3 h4]
    h1 h2 h3 s1 s2 f1 f2 f3 f4
  show ?thesis by simp
qed

end
